theory Spec2Isabelle
  imports Main "HOL-Library.Word"
begin

section \<open>State machine core (src/core/state\_manager.h, state\_manager.cpp)\<close>

text \<open>
  The enumerations of \<^verbatim>\<open>state_manager.h\<close>, constructor for constructor and in the
  order of declaration.
\<close>

datatype SystemState = INITIALIZATION | READY | PRODUCTION | DIAGNOSTIC | ERROR

datatype ProductionState = IDLE | ACTIVE | SUSPENDED

datatype TimeState = UNSYNCHRONIZED | SYNCHRONIZED | HOUR_TRANSITION

datatype SystemEvent =
    EVT_STARTUP_BEGIN | EVT_STARTUP_COMPLETE | EVT_STARTUP_FAILED
  | EVT_PRODUCTION_START | EVT_PRODUCTION_STOP | EVT_COUNTER_PRESSED
  | EVT_COUNT_UPDATED | EVT_COUNT_SAVED
  | EVT_TIME_UPDATED | EVT_HOUR_CHANGED | EVT_HOUR_LOGGED
  | EVT_RTC_AVAILABLE | EVT_RTC_UNAVAILABLE | EVT_SD_AVAILABLE | EVT_SD_UNAVAILABLE
  | EVT_OLED_AVAILABLE | EVT_OLED_UNAVAILABLE
  | EVT_DIAGNOSTIC_REQUEST | EVT_DIAGNOSTIC_COMPLETE
  | EVT_SERIAL_COMMAND | EVT_SERIAL_TIME_SET
  | EVT_ENTER_STATE | EVT_EXIT_STATE | EVT_STATE_TIMEOUT
  | EVT_ERROR_DETECTED | EVT_ERROR_RECOVERED | EVT_ERROR_FATAL

text \<open>
  The private members of \<^verbatim>\<open>class StateManager\<close>. \<^verbatim>\<open>uint8_t\<close> is \<^typ>\<open>8 word\<close>,
  \<^verbatim>\<open>unsigned long\<close> and \<^verbatim>\<open>uint32_t\<close> are \<^typ>\<open>32 word\<close> (the target is a 32-bit
  ESP32). The array \<^verbatim>\<open>eventQueue[EVENT_QUEUE_SIZE]\<close> is a list; serial logging is
  not modelled.
\<close>

record StateManager =
  currentState :: SystemState
  previousState :: SystemState
  productionSubState :: ProductionState
  timeSubState :: TimeState
  eventQueue :: "SystemEvent list"
  eventQueueHead :: "8 word"
  eventQueueTail :: "8 word"
  stateChangeTime :: "32 word"
  lastEventTime :: "32 word"
  eventCounter :: "32 word"
  transitionCounter :: "32 word"

definition EVENT_QUEUE_SIZE :: nat where
  "EVENT_QUEUE_SIZE = 16"

text \<open>
  The constructor together with the default member initialisers: \<^verbatim>\<open>memset\<close> fills
  the array with the enumerator of value 0.
\<close>

definition StateManager_new :: StateManager where
  "StateManager_new =
     \<lparr> currentState = INITIALIZATION, previousState = INITIALIZATION,
       productionSubState = IDLE, timeSubState = UNSYNCHRONIZED,
       eventQueue = replicate EVENT_QUEUE_SIZE EVT_STARTUP_BEGIN,
       eventQueueHead = 0, eventQueueTail = 0,
       stateChangeTime = 0, lastEventTime = 0,
       eventCounter = 0, transitionCounter = 0 \<rparr>"

text \<open>\<^verbatim>\<open>initialize()\<close>; the argument \<open>now\<close> is the value \<^verbatim>\<open>millis()\<close> returns.\<close>

definition initialize :: "32 word \<Rightarrow> StateManager \<Rightarrow> bool \<times> StateManager" where
  "initialize now s =
     (True, s\<lparr> currentState := INITIALIZATION, previousState := INITIALIZATION,
               productionSubState := IDLE, timeSubState := UNSYNCHRONIZED,
               stateChangeTime := now \<rparr>)"

text \<open>
  \<^verbatim>\<open>queueEvent\<close>. In \<^verbatim>\<open>(eventQueueTail + 1) % EVENT_QUEUE_SIZE\<close> both operands are
  promoted to \<^verbatim>\<open>int\<close>, so the sum does not wrap at 256; the result is converted back
  to \<^verbatim>\<open>uint8_t\<close>. A write outside the array is undefined behaviour in C++ and
  leaves the list unchanged here; \<open>queue_inv\<close> below shows the index is always in range.
\<close>

definition queueEvent :: "SystemEvent \<Rightarrow> StateManager \<Rightarrow> StateManager" where
  "queueEvent event s =
     (let nextTail = (of_nat ((unat (eventQueueTail s) + 1) mod EVENT_QUEUE_SIZE) :: 8 word)
      in if nextTail = eventQueueHead s then s
         else s\<lparr> eventQueue := (eventQueue s)[unat (eventQueueTail s) := event],
                  eventQueueTail := nextTail \<rparr>)"

text \<open>
  The test under which \<^verbatim>\<open>queueEvent\<close> prints ``Event queue full, dropping event''
  and returns.
\<close>

definition queueFull :: "StateManager \<Rightarrow> bool" where
  "queueFull s \<longleftrightarrow>
     (of_nat ((unat (eventQueueTail s) + 1) mod EVENT_QUEUE_SIZE) :: 8 word) = eventQueueHead s"

definition hasQueuedEvents :: "StateManager \<Rightarrow> bool" where
  "hasQueuedEvents s \<longleftrightarrow> eventQueueHead s \<noteq> eventQueueTail s"

subsection \<open>Guards\<close>

definition isOLEDAvailable :: bool where
  "isOLEDAvailable = True"

definition GuardConditions_canStartProduction :: bool where
  "GuardConditions_canStartProduction = isOLEDAvailable"

definition canEnterReady :: "StateManager \<Rightarrow> bool" where
  "canEnterReady s = isOLEDAvailable"

definition canStartProduction :: "StateManager \<Rightarrow> bool" where
  "canStartProduction s \<longleftrightarrow> currentState s = READY \<and> GuardConditions_canStartProduction"

definition canStopProduction :: "StateManager \<Rightarrow> bool" where
  "canStopProduction s \<longleftrightarrow> currentState s = PRODUCTION"

definition canEnterDiagnostic :: "StateManager \<Rightarrow> bool" where
  "canEnterDiagnostic s \<longleftrightarrow> currentState s = READY"

fun canTransitionTo :: "SystemState \<Rightarrow> StateManager \<Rightarrow> bool" where
  "canTransitionTo READY s = canEnterReady s"
| "canTransitionTo PRODUCTION s = canStartProduction s"
| "canTransitionTo DIAGNOSTIC s = canEnterDiagnostic s"
| "canTransitionTo ERROR s = True"
| "canTransitionTo INITIALIZATION s = (currentState s = INITIALIZATION)"

subsection \<open>Entry and exit actions\<close>

text \<open>Only three of the ten actions do more than print.\<close>

fun exitState :: "SystemState \<Rightarrow> StateManager \<Rightarrow> StateManager" where
  "exitState INITIALIZATION s = s"
| "exitState READY s = s"
| "exitState PRODUCTION s = s\<lparr> productionSubState := IDLE \<rparr>"
| "exitState DIAGNOSTIC s = s"
| "exitState ERROR s = s"

fun enterState :: "SystemState \<Rightarrow> StateManager \<Rightarrow> StateManager" where
  "enterState INITIALIZATION s = s"
| "enterState READY s = s\<lparr> productionSubState := IDLE \<rparr>"
| "enterState PRODUCTION s = s\<lparr> productionSubState := ACTIVE \<rparr>"
| "enterState DIAGNOSTIC s = s"
| "enterState ERROR s = s"

text \<open>
  \<^verbatim>\<open>transitionTo\<close> returns the \<^verbatim>\<open>bool\<close> of the source together with the new state.
\<close>

definition transitionTo :: "32 word \<Rightarrow> SystemState \<Rightarrow> StateManager \<Rightarrow> bool \<times> StateManager" where
  "transitionTo now newState s =
     (if \<not> canTransitionTo newState s then (False, s)
      else
        let s1 = exitState (currentState s) s;
            s2 = s1\<lparr> previousState := currentState s1, currentState := newState,
                      stateChangeTime := now,
                      transitionCounter := transitionCounter s1 + 1 \<rparr>;
            s3 = enterState (currentState s2) s2
        in (True, s3))"

subsection \<open>Event handlers\<close>

definition handleEventInInitialization :: "32 word \<Rightarrow> SystemEvent \<Rightarrow> StateManager \<Rightarrow> StateManager" where
  "handleEventInInitialization now event s =
     (case event of
        EVT_RTC_AVAILABLE \<Rightarrow> s\<lparr> timeSubState := SYNCHRONIZED \<rparr>
      | EVT_SD_AVAILABLE \<Rightarrow> s
      | EVT_STARTUP_COMPLETE \<Rightarrow> snd (transitionTo now READY s)
      | EVT_STARTUP_FAILED \<Rightarrow> snd (transitionTo now ERROR s)
      | _ \<Rightarrow> s)"

definition handleEventInReady :: "32 word \<Rightarrow> SystemEvent \<Rightarrow> StateManager \<Rightarrow> StateManager" where
  "handleEventInReady now event s =
     (case event of
        EVT_PRODUCTION_START \<Rightarrow> snd (transitionTo now PRODUCTION s)
      | EVT_DIAGNOSTIC_REQUEST \<Rightarrow> snd (transitionTo now DIAGNOSTIC s)
      | EVT_HOUR_CHANGED \<Rightarrow> s
      | EVT_ERROR_DETECTED \<Rightarrow> snd (transitionTo now ERROR s)
      | _ \<Rightarrow> s)"

definition handleEventInProduction :: "32 word \<Rightarrow> SystemEvent \<Rightarrow> StateManager \<Rightarrow> StateManager" where
  "handleEventInProduction now event s =
     (case event of
        EVT_COUNTER_PRESSED \<Rightarrow> s\<lparr> productionSubState := ACTIVE \<rparr>
      | EVT_PRODUCTION_STOP \<Rightarrow> snd (transitionTo now READY s)
      | EVT_HOUR_CHANGED \<Rightarrow> s
      | EVT_ERROR_DETECTED \<Rightarrow> snd (transitionTo now ERROR s)
      | _ \<Rightarrow> s)"

definition handleEventInDiagnostic :: "32 word \<Rightarrow> SystemEvent \<Rightarrow> StateManager \<Rightarrow> StateManager" where
  "handleEventInDiagnostic now event s =
     (case event of
        EVT_DIAGNOSTIC_COMPLETE \<Rightarrow> snd (transitionTo now READY s)
      | EVT_ERROR_DETECTED \<Rightarrow> snd (transitionTo now ERROR s)
      | _ \<Rightarrow> s)"

definition handleEventInError :: "32 word \<Rightarrow> SystemEvent \<Rightarrow> StateManager \<Rightarrow> StateManager" where
  "handleEventInError now event s =
     (case event of
        EVT_ERROR_RECOVERED \<Rightarrow> snd (transitionTo now READY s)
      | EVT_ERROR_FATAL \<Rightarrow> s
      | _ \<Rightarrow> s)"

definition processEvent :: "32 word \<Rightarrow> SystemEvent \<Rightarrow> StateManager \<Rightarrow> StateManager" where
  "processEvent now event s =
     (let s1 = s\<lparr> eventCounter := eventCounter s + 1, lastEventTime := now \<rparr>
      in case currentState s1 of
           INITIALIZATION \<Rightarrow> handleEventInInitialization now event s1
         | READY \<Rightarrow> handleEventInReady now event s1
         | PRODUCTION \<Rightarrow> handleEventInProduction now event s1
         | DIAGNOSTIC \<Rightarrow> handleEventInDiagnostic now event s1
         | ERROR \<Rightarrow> handleEventInError now event s1)"


subsection \<open>The main-loop update\<close>

text \<open>
  One iteration of the \<^verbatim>\<open>while (hasQueuedEvents())\<close> loop of \<^verbatim>\<open>update()\<close>: read the
  event at the head, advance the head, process the event. A read outside the array is
  undefined behaviour in C++ and unspecified here; \<open>queue_inv\<close> keeps the index in range.
\<close>

definition dequeueAndProcess :: "32 word \<Rightarrow> StateManager \<Rightarrow> StateManager" where
  "dequeueAndProcess now s =
     (let event = eventQueue s ! unat (eventQueueHead s);
          s1 = s\<lparr> eventQueueHead :=
                     of_nat ((unat (eventQueueHead s) + 1) mod EVENT_QUEUE_SIZE) \<rparr>
      in processEvent now event s1)"

text \<open>
  The loop itself. It need not terminate on every value of the record type (a tail index
  of 16 or more is never met by the head), so it is a partial function: \<open>None\<close> is
  a loop that runs forever. \<open>processQueuedEvents_counts\<close> shows that it returns on
  every state that satisfies \<open>queue_inv\<close>.
\<close>

partial_function (option) processQueuedEvents :: "32 word \<Rightarrow> StateManager \<Rightarrow> StateManager option" where
  "processQueuedEvents now s =
     (if hasQueuedEvents s then processQueuedEvents now (dequeueAndProcess now s)
      else Some s)"

definition getTimeInCurrentState :: "32 word \<Rightarrow> StateManager \<Rightarrow> 32 word" where
  "getTimeInCurrentState now s = now - stateChangeTime s"

text \<open>
  The \<^verbatim>\<open>switch\<close> that follows the loop in \<^verbatim>\<open>update()\<close>. One call of
  \<^verbatim>\<open>update()\<close> reads \<^verbatim>\<open>millis()\<close> several times; it is taken to return the same
  value \<open>now\<close> each time.
\<close>

definition updateSubStates :: "32 word \<Rightarrow> StateManager \<Rightarrow> StateManager" where
  "updateSubStates now s =
     (case currentState s of
        INITIALIZATION \<Rightarrow>
          if getTimeInCurrentState now s > 30000 then snd (transitionTo now ERROR s) else s
      | READY \<Rightarrow> s
      | PRODUCTION \<Rightarrow> s
      | DIAGNOSTIC \<Rightarrow>
          if getTimeInCurrentState now s > 60000 then snd (transitionTo now READY s) else s
      | ERROR \<Rightarrow>
          if getTimeInCurrentState now s > 5000 then snd (transitionTo now READY s) else s)"

definition update :: "32 word \<Rightarrow> StateManager \<Rightarrow> StateManager option" where
  "update now s = map_option (updateSubStates now) (processQueuedEvents now s)"

subsection \<open>Reading the circular buffer\<close>

text \<open>
  The source has no accessor for the queue's contents. \<open>queuedEvents\<close> is the list of
  events between head and tail, oldest first: the events the loop of \<^verbatim>\<open>update()\<close>
  is going to process, in that order (\<open>dequeueAndProcess_queued\<close>,
  \<open>processQueuedEvents_counts\<close>). \<open>occupied\<close> is their number.
\<close>

definition queuedEvents :: "StateManager \<Rightarrow> SystemEvent list" where
  "queuedEvents s =
     map (\<lambda>i. eventQueue s ! ((unat (eventQueueHead s) + i) mod EVENT_QUEUE_SIZE))
       [0 ..< (unat (eventQueueTail s) + EVENT_QUEUE_SIZE - unat (eventQueueHead s))
                mod EVENT_QUEUE_SIZE]"

definition occupied :: "StateManager \<Rightarrow> nat" where
  "occupied s = length (queuedEvents s)"

definition queue_inv :: "StateManager \<Rightarrow> bool" where
  "queue_inv s \<longleftrightarrow>
     unat (eventQueueHead s) < EVENT_QUEUE_SIZE \<and>
     unat (eventQueueTail s) < EVENT_QUEUE_SIZE \<and>
     length (eventQueue s) = EVENT_QUEUE_SIZE"

text \<open>
  The operations on the queue as the firmware performs them: the interrupt handlers
  call \<^verbatim>\<open>queueEvent\<close>, the main loop takes events out one at a time.
\<close>

datatype QueueOp = Enqueue SystemEvent | Dequeue

fun applyOp :: "32 word \<Rightarrow> StateManager \<Rightarrow> QueueOp \<Rightarrow> StateManager" where
  "applyOp now s (Enqueue event) = queueEvent event s"
| "applyOp now s Dequeue = (if hasQueuedEvents s then dequeueAndProcess now s else s)"

definition runOps :: "32 word \<Rightarrow> QueueOp list \<Rightarrow> StateManager \<Rightarrow> StateManager" where
  "runOps now ops s = foldl (applyOp now) s ops"

definition queueAll :: "SystemEvent list \<Rightarrow> StateManager \<Rightarrow> StateManager" where
  "queueAll events s = foldl (\<lambda>s' event. queueEvent event s') s events"

text \<open>
  A reference model to compare the buffer with: a list that accepts an event only
  while it holds fewer than \<open>cap\<close> of them.
\<close>

fun fifoOp :: "nat \<Rightarrow> SystemEvent list \<Rightarrow> QueueOp \<Rightarrow> SystemEvent list" where
  "fifoOp cap q (Enqueue event) = (if length q < cap then q @ [event] else q)"
| "fifoOp cap q Dequeue = tl q"

definition fifoRun :: "nat \<Rightarrow> QueueOp list \<Rightarrow> SystemEvent list \<Rightarrow> SystemEvent list" where
  "fifoRun cap ops q = foldl (fifoOp cap) q ops"


section \<open>Dates and times\<close>

text \<open>
  \<^verbatim>\<open>DateTime\<close> is the class of the RTClib library the firmware links against. It stores
  the year as an offset from 2000 and every field in a \<^verbatim>\<open>uint8_t\<close>; \<^verbatim>\<open>year()\<close>
  returns a \<^verbatim>\<open>uint16_t\<close>. The six-argument constructor takes a \<^verbatim>\<open>uint16_t\<close> year
  and \<^verbatim>\<open>uint8_t\<close> for the rest, subtracts 2000 from a year of 2000 or more, and
  truncates. The default constructor yields 2000-01-01 00:00:00.
\<close>

record DateTime =
  dt_yOff :: "8 word"
  dt_m :: "8 word"
  dt_d :: "8 word"
  dt_hh :: "8 word"
  dt_mm :: "8 word"
  dt_ss :: "8 word"

definition DateTime_ymdhms ::
    "16 word \<Rightarrow> 8 word \<Rightarrow> 8 word \<Rightarrow> 8 word \<Rightarrow> 8 word \<Rightarrow> 8 word \<Rightarrow> DateTime" where
  "DateTime_ymdhms y mo dy h mi sc =
     \<lparr> dt_yOff = ucast (if 2000 \<le> y then y - 2000 else y),
       dt_m = mo, dt_d = dy, dt_hh = h, dt_mm = mi, dt_ss = sc \<rparr>"

definition DateTime_default :: DateTime where
  "DateTime_default = \<lparr> dt_yOff = 0, dt_m = 1, dt_d = 1, dt_hh = 0, dt_mm = 0, dt_ss = 0 \<rparr>"

definition year :: "DateTime \<Rightarrow> 16 word" where
  "year dt = 2000 + ucast (dt_yOff dt)"

definition month :: "DateTime \<Rightarrow> 8 word" where
  "month dt = dt_m dt"

definition day :: "DateTime \<Rightarrow> 8 word" where
  "day dt = dt_d dt"

definition hour :: "DateTime \<Rightarrow> 8 word" where
  "hour dt = dt_hh dt"

definition minute :: "DateTime \<Rightarrow> 8 word" where
  "minute dt = dt_mm dt"

definition second :: "DateTime \<Rightarrow> 8 word" where
  "second dt = dt_ss dt"

section \<open>Managers (src/managers/managers.h, managers.cpp)\<close>

subsection \<open>ProductionManager\<close>

text \<open>
  \<^verbatim>\<open>int\<close> is a 32-bit two's-complement word on the target; comparisons of
  \<^verbatim>\<open>int\<close> values are the signed ones (\<open><s\<close>). The value \<^verbatim>\<open>RTC_DS3231::now()\<close>
  returns is the argument \<open>now\<close>.
\<close>

record ProductionManager =
  sessionActive :: bool
  sessionCount :: "32 word"
  totalSessionCount :: "32 word"
  sessionStartTime :: DateTime
  sessionStopTime :: DateTime
  startingCountValue :: "32 word"

definition ProductionManager_new :: ProductionManager where
  "ProductionManager_new =
     \<lparr> sessionActive = False, sessionCount = 0, totalSessionCount = 0,
       sessionStartTime = DateTime_default, sessionStopTime = DateTime_default,
       startingCountValue = 0 \<rparr>"

definition startSession :: "DateTime \<Rightarrow> ProductionManager \<Rightarrow> bool \<times> ProductionManager" where
  "startSession now pm =
     (if sessionActive pm then (False, pm)
      else (True, pm\<lparr> sessionActive := True, sessionCount := 0,
                       startingCountValue := 0, sessionStartTime := now \<rparr>))"

definition stopSession :: "DateTime \<Rightarrow> ProductionManager \<Rightarrow> bool \<times> ProductionManager" where
  "stopSession now pm =
     (if \<not> sessionActive pm then (False, pm)
      else (True, pm\<lparr> sessionActive := False, sessionStopTime := now,
                       totalSessionCount := totalSessionCount pm + sessionCount pm \<rparr>))"

definition incrementCount :: "ProductionManager \<Rightarrow> ProductionManager" where
  "incrementCount pm =
     (if \<not> sessionActive pm then pm
      else if sessionCount pm <s 9999 then pm\<lparr> sessionCount := sessionCount pm + 1 \<rparr>
      else pm)"

definition getSessionCount :: "ProductionManager \<Rightarrow> 32 word" where
  "getSessionCount pm = sessionCount pm"

definition getTotalSessionCount :: "ProductionManager \<Rightarrow> 32 word" where
  "getTotalSessionCount pm = totalSessionCount pm"

definition isSessionActive :: "ProductionManager \<Rightarrow> bool" where
  "isSessionActive pm = sessionActive pm"

subsection \<open>ConfigManager\<close>






subsection \<open>TimeManager\<close>

text \<open>
  The members \<^verbatim>\<open>initialize\<close> and \<^verbatim>\<open>handleHourChange\<close> carry the name of
  the class in front, since the state manager and the sketch have functions of the same
  names. \<^verbatim>\<open>getCurrentTime()\<close> returns the build time in this version; its value is the
  argument \<open>now\<close>. \<^verbatim>\<open>lastTrackedHour\<close> is an \<^verbatim>\<open>int\<close> that only ever holds \<open>-1\<close>
  or an hour read from a \<^verbatim>\<open>uint8_t\<close>, and no arithmetic is done on it: it is an
  \<^typ>\<open>int\<close> here. \<^verbatim>\<open>hasHourChanged()\<close> is a \<^verbatim>\<open>const\<close> member: it returns a value
  and leaves the object as it is.
\<close>

record TimeManager =
  lastTrackedHour :: int
  lastRecordedTime :: DateTime
  timeInitialized :: bool


definition TimeManager_initialize :: "DateTime \<Rightarrow> TimeManager \<Rightarrow> bool \<times> TimeManager" where
  "TimeManager_initialize now tm =
     (True, tm\<lparr> timeInitialized := True, lastTrackedHour := uint (hour now),
                lastRecordedTime := now \<rparr>)"




section \<open>The firmware sketch (code\_v3.cpp)\<close>

text \<open>
  The sketch keeps its state in global variables and on the SD card. The globals that
  the session, recovery and hour-change code reads or writes are the fields of
  \<open>Globals\<close>; display state, serial output and the session report files that are
  written but never read back are not modelled.
\<close>

definition MAX_COUNT :: "32 word" where
  "MAX_COUNT = 9999"

definition SAVE_INTERVAL :: "32 word" where
  "SAVE_INTERVAL = 5000"

definition DEBOUNCE_DELAY :: "32 word" where
  "DEBOUNCE_DELAY = 50"

text \<open>
  The card. A count file holds one number; it is represented by the \<^verbatim>\<open>int\<close> that
  \<^verbatim>\<open>atoi\<close> reads from it, and \<open>None\<close> is a file that does not exist. The session
  state file holds eight numbers, one per line; it is represented by the eight values
  that the eight calls of \<^verbatim>\<open>parseInt()\<close> return, in the order of the calls.
  \<open>openFails\<close> is a card on which \<^verbatim>\<open>SD.open\<close> returns a null file. On the ESP32
  \<^verbatim>\<open>FILE_WRITE\<close> truncates the file it opens.
\<close>

datatype CountFile = COUNT_FILE | HOURLY_FILE | CUMULATIVE_FILE

record ProductionStateFile =
  file_currentCount :: "32 word"
  file_startCount :: "32 word"
  file_year :: "32 word"
  file_month :: "32 word"
  file_day :: "32 word"
  file_hour :: "32 word"
  file_minute :: "32 word"
  file_second :: "32 word"

record SDCard =
  countFiles :: "CountFile \<Rightarrow> 32 word option"
  productionStateFile :: "ProductionStateFile option"
  openFails :: bool

record Globals =
  currentCount :: "32 word"
  countChanged :: bool
  hourlyCount :: "32 word"
  cumulativeCount :: "32 word"
  lastHour :: int
  rtcAvailable :: bool
  sdAvailable :: bool
  productionActive :: bool
  productionStartTime :: DateTime
  productionStopTime :: DateTime
  productionStartCount :: "32 word"
  productionCount :: "32 word"
  lastInterruptTime :: "32 word"
  cachedDebounceDelay :: "32 word"
  lastSaveTime :: "32 word"
  saveInterval :: "32 word"
  sd :: SDCard

text \<open>The initialisers of the global variables; the card is whatever is in the slot.\<close>

definition Globals_init :: "SDCard \<Rightarrow> Globals" where
  "Globals_init sdc =
     \<lparr> currentCount = 0, countChanged = False, hourlyCount = 0, cumulativeCount = 0,
       lastHour = - 1, rtcAvailable = False, sdAvailable = False,
       productionActive = False,
       productionStartTime = DateTime_default, productionStopTime = DateTime_default,
       productionStartCount = 0, productionCount = 0,
       lastInterruptTime = 0, cachedDebounceDelay = DEBOUNCE_DELAY,
       lastSaveTime = 0, saveInterval = SAVE_INTERVAL, sd = sdc \<rparr>"

subsection \<open>Interrupt service routine\<close>

text \<open>\<^verbatim>\<open>handleInterrupt()\<close>; \<open>t\<close> is the value of \<^verbatim>\<open>millis()\<close>.\<close>

definition handleInterrupt :: "32 word \<Rightarrow> Globals \<Rightarrow> Globals" where
  "handleInterrupt t g =
     (if t - lastInterruptTime g > cachedDebounceDelay g then
        (if productionActive g \<and> currentCount g <s MAX_COUNT
         then g\<lparr> currentCount := currentCount g + 1, countChanged := True \<rparr>
         else g) \<lparr> lastInterruptTime := t \<rparr>
      else g)"

subsection \<open>Count files\<close>

definition readCountFromFile :: "CountFile \<Rightarrow> SDCard \<Rightarrow> 32 word" where
  "readCountFromFile filename sdc =
     (case countFiles sdc filename of
        None \<Rightarrow> 0
      | Some count \<Rightarrow>
          if openFails sdc then 0
          else if count <s 0 \<or> MAX_COUNT <s count then 0
          else count)"

definition writeCountToFile :: "CountFile \<Rightarrow> 32 word \<Rightarrow> SDCard \<Rightarrow> SDCard" where
  "writeCountToFile filename count sdc =
     (if count <s 0 \<or> MAX_COUNT <s count then sdc
      else
        let sdc1 = sdc\<lparr> countFiles := (countFiles sdc)(filename := None) \<rparr>
        in if openFails sdc1 then sdc1
           else sdc1\<lparr> countFiles := (countFiles sdc1)(filename \<mapsto> count) \<rparr>)"

definition initializeFile :: "CountFile \<Rightarrow> SDCard \<Rightarrow> SDCard" where
  "initializeFile filename sdc =
     (if countFiles sdc filename = None then writeCountToFile filename 0 sdc else sdc)"

definition initializeFiles :: "SDCard \<Rightarrow> SDCard" where
  "initializeFiles sdc =
     initializeFile CUMULATIVE_FILE (initializeFile HOURLY_FILE (initializeFile COUNT_FILE sdc))"

subsection \<open>Session state file\<close>

definition clearProductionState :: "Globals \<Rightarrow> Globals" where
  "clearProductionState g =
     (if \<not> sdAvailable g then g
      else g\<lparr> sd := (sd g)\<lparr> productionStateFile := None \<rparr> \<rparr>)"

definition saveProductionState :: "Globals \<Rightarrow> Globals" where
  "saveProductionState g =
     (if \<not> sdAvailable g then g
      else if \<not> productionActive g then clearProductionState g
      else if openFails (sd g) then g
      else g\<lparr> sd := (sd g)\<lparr> productionStateFile := Some
             \<lparr> file_currentCount = currentCount g,
               file_startCount = productionStartCount g,
               file_year = ucast (year (productionStartTime g)),
               file_month = ucast (month (productionStartTime g)),
               file_day = ucast (day (productionStartTime g)),
               file_hour = ucast (hour (productionStartTime g)),
               file_minute = ucast (minute (productionStartTime g)),
               file_second = ucast (second (productionStartTime g)) \<rparr> \<rparr> \<rparr>)"

text \<open>
  \<^verbatim>\<open>restoreProductionState()\<close>. The eight values are \<^verbatim>\<open>int\<close>s; the constructor of
  \<^verbatim>\<open>DateTime\<close> receives them converted to its parameter types.
\<close>

definition restoreProductionState :: "Globals \<Rightarrow> Globals" where
  "restoreProductionState g =
     (if \<not> sdAvailable g then g
      else case productionStateFile (sd g) of
        None \<Rightarrow> g
      | Some f \<Rightarrow>
          if openFails (sd g) then g
          else if 2020 <=s file_year f \<and> file_year f <=s 2100 \<and>
                  1 <=s file_month f \<and> file_month f <=s 12 \<and>
                  1 <=s file_day f \<and> file_day f <=s 31 \<and>
                  file_hour f <=s 23 \<and> file_minute f <=s 59 \<and> file_second f <=s 59
          then
            let g1 = g\<lparr> productionActive := True,
                        currentCount := file_currentCount f,
                        productionStartCount := file_startCount f,
                        productionStartTime :=
                          DateTime_ymdhms (ucast (file_year f)) (ucast (file_month f))
                            (ucast (file_day f)) (ucast (file_hour f))
                            (ucast (file_minute f)) (ucast (file_second f)) \<rparr>
            in g1\<lparr> productionCount := currentCount g1 - productionStartCount g1 \<rparr>
          else g)"

subsection \<open>Production session\<close>

text \<open>\<open>now\<close> is the value of \<^verbatim>\<open>rtc.now()\<close>.\<close>

definition startProduction :: "DateTime \<Rightarrow> Globals \<Rightarrow> Globals" where
  "startProduction now g =
     (if \<not> rtcAvailable g then g
      else saveProductionState
             (g\<lparr> productionActive := True, productionStartTime := now,
                 productionStartCount := currentCount g, productionCount := 0 \<rparr>))"

definition stopProduction :: "DateTime \<Rightarrow> Globals \<Rightarrow> Globals" where
  "stopProduction now g =
     (if \<not> productionActive g then g
      else
        let g1 = g\<lparr> productionActive := False,
                    productionStopTime :=
                      (if rtcAvailable g then now else productionStartTime g) \<rparr>;
            g2 = g1\<lparr> productionCount := currentCount g1 - productionStartCount g1 \<rparr>
        in if sdAvailable g2 then clearProductionState g2 else g2)"

subsection \<open>Hour change\<close>

definition handleHourChange :: "DateTime \<Rightarrow> Globals \<Rightarrow> Globals" where
  "handleHourChange now g =
     (if \<not> productionActive g then
        let finalCount = currentCount g;
            g1 = g\<lparr> currentCount := 0, countChanged := False \<rparr>;
            g2 = g1\<lparr> hourlyCount := finalCount \<rparr>;
            g3 = g2\<lparr> cumulativeCount := cumulativeCount g2 + hourlyCount g2 \<rparr>
        in if sdAvailable g3
           then g3\<lparr> sd := writeCountToFile CUMULATIVE_FILE (cumulativeCount g3)
                             (writeCountToFile HOURLY_FILE (hourlyCount g3)
                               (writeCountToFile COUNT_FILE 0 (sd g3))) \<rparr>
           else g3
      else g)"

subsection \<open>Main loop and start-up\<close>

text \<open>
  The block of \<^verbatim>\<open>loop()\<close> under ``Save count periodically''; \<open>t\<close> is the value of
  \<^verbatim>\<open>millis()\<close> at the top of the iteration.
\<close>

definition loop_periodicSave :: "32 word \<Rightarrow> Globals \<Rightarrow> Globals" where
  "loop_periodicSave t g =
     (if countChanged g \<and> sdAvailable g \<and> t - lastSaveTime g > saveInterval g then
        let countToSave = currentCount g;
            g1 = g\<lparr> countChanged := False \<rparr>;
            g2 = g1\<lparr> sd := writeCountToFile COUNT_FILE countToSave (sd g1) \<rparr>;
            g3 = g2\<lparr> lastSaveTime := t \<rparr>
        in if productionActive g3 then saveProductionState g3 else g3
      else g)"

text \<open>
  \<^verbatim>\<open>setup()\<close> from the file-system check on. What the hardware bring-up found is
  given: \<open>sdOk\<close> is the result of \<^verbatim>\<open>initializeSD()\<close>, \<open>rtcOk\<close> that of
  \<^verbatim>\<open>rtc.begin()\<close>, \<open>latchPressed\<close> the level read from the latching pin and
  \<open>rtcNow\<close> what \<^verbatim>\<open>rtc.now()\<close> returns, at each of its calls. The settings kept in
  EEPROM are left at their defaults. (\<open>setup\<close> is a keyword of the prover, hence
  \<open>setup_sketch\<close>.)
\<close>

definition setup_loadCounts :: "Globals \<Rightarrow> Globals" where
  "setup_loadCounts g =
     (if sdAvailable g then
        let g1 = g\<lparr> sd := initializeFiles (sd g) \<rparr>
        in g1\<lparr> currentCount := readCountFromFile COUNT_FILE (sd g1),
                hourlyCount := readCountFromFile HOURLY_FILE (sd g1),
                cumulativeCount := readCountFromFile CUMULATIVE_FILE (sd g1) \<rparr>
      else g)"

definition setup_latch :: "bool \<Rightarrow> DateTime \<Rightarrow> Globals \<Rightarrow> Globals" where
  "setup_latch latchPressed rtcNow g =
     (if latchPressed then
        g\<lparr> productionActive := True, productionStartCount := 0, productionCount := 0,
           productionStartTime :=
             (if rtcAvailable g then rtcNow else DateTime_ymdhms 2025 11 12 0 0 0) \<rparr>
      else
        let g1 = g\<lparr> productionActive := False, currentCount := 0, countChanged := True \<rparr>;
            g2 = (if sdAvailable g1
                  then g1\<lparr> sd := writeCountToFile COUNT_FILE 0 (sd g1) \<rparr> else g1)
        in g2\<lparr> productionStartCount := 0, productionCount := 0 \<rparr>)"

definition setup_sketch :: "bool \<Rightarrow> bool \<Rightarrow> bool \<Rightarrow> DateTime \<Rightarrow> SDCard \<Rightarrow> Globals" where
  "setup_sketch sdOk rtcOk latchPressed rtcNow sdc =
     (let g0 = (Globals_init sdc)\<lparr> sdAvailable := sdOk, rtcAvailable := rtcOk \<rparr>;
          g1 = setup_loadCounts g0;
          g2 = setup_latch latchPressed rtcNow g1;
          g3 = restoreProductionState g2
      in g3\<lparr> lastHour := (if rtcAvailable g3 then uint (hour rtcNow) else 0) \<rparr>)"


section \<open>Snapshot validity in the words of the specification\<close>

text \<open>
  The specification calls a snapshot valid when its year is at least a configured
  epoch, its month is 1 to 12, its day 1 to 31, its hour 0 to 23 and its minute and
  second 0 to 59. \<open>spec_snapshot_valid\<close> says just that of the eight values of the
  session state file; it is compared below with the test \<^verbatim>\<open>restoreProductionState()\<close>
  makes. \<open>startTimeInRange\<close> is the same range for a \<^verbatim>\<open>DateTime\<close> read from the
  clock, with the upper bound 2100 that the sketch puts on the year.
\<close>

definition spec_snapshot_valid :: "32 word \<Rightarrow> ProductionStateFile \<Rightarrow> bool" where
  "spec_snapshot_valid epoch f \<longleftrightarrow>
     epoch <=s file_year f \<and>
     1 <=s file_month f \<and> file_month f <=s 12 \<and>
     1 <=s file_day f \<and> file_day f <=s 31 \<and>
     0 <=s file_hour f \<and> file_hour f <=s 23 \<and>
     0 <=s file_minute f \<and> file_minute f <=s 59 \<and>
     0 <=s file_second f \<and> file_second f <=s 59"

definition startTimeInRange :: "DateTime \<Rightarrow> bool" where
  "startTimeInRange dt \<longleftrightarrow>
     2020 \<le> year dt \<and> year dt \<le> 2100 \<and>
     1 \<le> month dt \<and> month dt \<le> 12 \<and>
     1 \<le> day dt \<and> day dt \<le> 31 \<and>
     hour dt \<le> 23 \<and> minute dt \<le> 59 \<and> second dt \<le> 59"

section \<open>Inputs of the worked examples\<close>

text \<open>
  Concrete states and values on which the theorems below are instantiated: a state
  machine brought from start-up to \<open>READY\<close>, \<open>PRODUCTION\<close> and \<open>DIAGNOSTIC\<close>, two
  readings of the clock within the same hour and one in the next, and a production
  manager with a session under way.
\<close>

definition example_ready :: StateManager where
  "example_ready = snd (transitionTo 10 READY (snd (initialize 0 StateManager_new)))"

definition example_production :: StateManager where
  "example_production = snd (transitionTo 20 PRODUCTION example_ready)"

definition example_diagnostic :: StateManager where
  "example_diagnostic = snd (transitionTo 20 DIAGNOSTIC example_ready)"

definition example_time :: DateTime where
  "example_time = DateTime_ymdhms 2025 11 30 8 15 0"

definition example_time_later :: DateTime where
  "example_time_later = DateTime_ymdhms 2025 11 30 8 47 30"

definition example_next_hour :: DateTime where
  "example_next_hour = DateTime_ymdhms 2025 11 30 9 0 2"

definition example_session :: ProductionManager where
  "example_session = snd (startSession example_time ProductionManager_new)"

text \<open>
  For the sketch: an empty card; the sketch after a start-up with card and clock
  present and the latch released; a session started on it with three, and with five,
  debounced presses of the counter button, the latter also after its stop; the state
  after a pass of the periodic save that follows the third press; and snapshots with
  the year 2101 and with the month 13, on a card.
\<close>

definition example_card_empty :: SDCard where
  "example_card_empty =
     \<lparr> countFiles = (\<lambda>_. None), productionStateFile = None, openFails = False \<rparr>"

definition example_running :: Globals where
  "example_running = setup_sketch True True False example_time example_card_empty"

definition example_three_counted :: Globals where
  "example_three_counted =
     handleInterrupt 3000 (handleInterrupt 2000 (handleInterrupt 1000
       (startProduction example_time example_running)))"

definition example_three_saved :: Globals where
  "example_three_saved = loop_periodicSave 9000 example_three_counted"

definition example_five_counted :: Globals where
  "example_five_counted =
     handleInterrupt 5000 (handleInterrupt 4000 (handleInterrupt 3000
       (handleInterrupt 2000 (handleInterrupt 1000
         (startProduction example_time (example_running\<lparr> cumulativeCount := 10 \<rparr>))))))"

definition example_five_stopped :: Globals where
  "example_five_stopped = stopProduction example_time_later example_five_counted"

definition example_snapshot_2101 :: ProductionStateFile where
  "example_snapshot_2101 =
     \<lparr> file_currentCount = 3, file_startCount = 0, file_year = 2101, file_month = 1,
       file_day = 1, file_hour = 0, file_minute = 0, file_second = 0 \<rparr>"

definition example_snapshot_month13 :: ProductionStateFile where
  "example_snapshot_month13 =
     \<lparr> file_currentCount = 3, file_startCount = 0, file_year = 2025, file_month = 13,
       file_day = 1, file_hour = 0, file_minute = 0, file_second = 0 \<rparr>"

definition example_card_with :: "ProductionStateFile \<Rightarrow> SDCard" where
  "example_card_with f = example_card_empty\<lparr> productionStateFile := Some f \<rparr>"


section \<open>Arithmetic of the ring indices\<close>

text \<open>
  Head and tail stay below 16, so every index sum stays below 32 and the remainder
  modulo 16 is one conditional subtraction.
\<close>

lemma mod16_small: "a < 32 \<Longrightarrow> a mod 16 = (if a < 16 then a else a - (16::nat))"
  by (simp add: le_mod_geq)

lemma full_next_is_head: "h < 16 \<Longrightarrow> t < 16 \<Longrightarrow> (t + 16 - h) mod 16 = 15 \<Longrightarrow> Suc t mod 16 = (h::nat)"
  by (simp add: mod16_small split: if_splits; arith)

lemma room_next_not_head: "h < 16 \<Longrightarrow> t < 16 \<Longrightarrow> (t + 16 - h) mod 16 < 15 \<Longrightarrow> Suc t mod 16 \<noteq> (h::nat)"
  by (simp add: mod16_small split: if_splits; arith)

lemma room_occupied_Suc: "h < 16 \<Longrightarrow> t < 16 \<Longrightarrow> (t + 16 - h) mod 16 < 15 \<Longrightarrow> (Suc t mod 16 + 16 - h) mod 16 = Suc ((t + 16 - (h::nat)) mod 16)"
  by (simp add: mod16_small split: if_splits; arith)

lemma head_plus_occupied: "h < 16 \<Longrightarrow> t < 16 \<Longrightarrow> (h + (t + 16 - h) mod 16) mod 16 = (t::nat)"
  by (simp add: mod16_small split: if_splits; arith)

lemma queued_index_not_tail: "h < 16 \<Longrightarrow> t < 16 \<Longrightarrow> i < (t + 16 - h) mod 16 \<Longrightarrow> (h + i) mod 16 \<noteq> (t::nat)"
  by (simp add: mod16_small split: if_splits; arith)

lemma nonempty_occupied_Suc: "h < 16 \<Longrightarrow> t < 16 \<Longrightarrow> h \<noteq> t \<Longrightarrow> (t + 16 - h) mod 16 = Suc ((t + 16 - Suc h mod 16) mod (16::nat))"
  by (simp add: mod16_small split: if_splits; arith)

lemma next_head_shift: "(Suc h mod 16 + i) mod 16 = (h + Suc i) mod (16::nat)"
  by (metis add_Suc add_Suc_right mod_add_left_eq)

lemma unat_next_index:
  "unat (of_nat (Suc (unat (i :: 8 word)) mod 16) :: 8 word) = Suc (unat i) mod 16"
proof -
  have "Suc (unat i) mod 16 < 256"
    by (rule less_trans [OF mod_less_divisor]) simp_all
  then show ?thesis
    by (simp add: unat_of_nat)
qed

lemma next_index_eq_iff:
  "(of_nat (Suc (unat (i :: 8 word)) mod 16) = (j :: 8 word)) \<longleftrightarrow>
   Suc (unat i) mod 16 = unat j"
  by (simp add: word_unat_eq_iff unat_next_index)

section \<open>Signed and widened words\<close>

lemma sint_of_nat_small:
  assumes "k < 2 ^ 31"
  shows "sint (of_nat k :: 32 word) = int k"
proof -
  have "signed_take_bit 31 (int k) = int k"
    using assms by (intro signed_take_bit_int_eq_self) simp_all
  then show ?thesis
    by (simp add: signed_of_nat)
qed

lemma sint_ucast8: "sint (ucast (w :: 8 word) :: 32 word) = uint w"
proof -
  have b: "uint w < 256"
    using uint_bounded [of w] by simp
  have lo: "- (2 ^ 31) \<le> uint w"
    by (rule order_trans [OF _ uint_nonnegative]) simp
  from b have "take_bit 32 (uint w) = uint w"
    by (intro take_bit_int_eq_self) simp_all
  moreover from b lo have "signed_take_bit 31 (uint w) = uint w"
    by (intro signed_take_bit_int_eq_self) simp_all
  ultimately show ?thesis
    by (simp add: sint_uint unsigned_ucast_eq)
qed

lemma sint_ucast16: "sint (ucast (w :: 16 word) :: 32 word) = uint w"
proof -
  have b: "uint w < 65536"
    using uint_bounded [of w] by simp
  have lo: "- (2 ^ 31) \<le> uint w"
    by (rule order_trans [OF _ uint_nonnegative]) simp
  from b have "take_bit 32 (uint w) = uint w"
    by (intro take_bit_int_eq_self) simp_all
  moreover from b lo have "signed_take_bit 31 (uint w) = uint w"
    by (intro signed_take_bit_int_eq_self) simp_all
  ultimately show ?thesis
    by (simp add: sint_uint unsigned_ucast_eq)
qed

lemma sint_Suc_word:
  assumes "sint (c :: 32 word) < 9999"
  shows "sint (c + 1) = sint c + 1"
proof -
  have "- (2 ^ 31) \<le> sint c" using sint_greater_eq [of c] by simp
  with assms have "signed_take_bit 31 (sint c + 1) = sint c + 1"
    by (intro signed_take_bit_int_eq_self) simp_all
  then show ?thesis by (simp add: sint_word_add)
qed

section \<open>The event queue\<close>

subsection \<open>Event processing leaves the queue alone\<close>

lemma transitionTo_queue:
  "eventQueue (snd (transitionTo now st s)) = eventQueue s \<and>
   eventQueueHead (snd (transitionTo now st s)) = eventQueueHead s \<and>
   eventQueueTail (snd (transitionTo now st s)) = eventQueueTail s"
  by (cases st; cases "currentState s"; simp add: transitionTo_def Let_def)

lemma handlers_queue:
  "eventQueue (handleEventInInitialization now ev s) = eventQueue s \<and>
   eventQueueHead (handleEventInInitialization now ev s) = eventQueueHead s \<and>
   eventQueueTail (handleEventInInitialization now ev s) = eventQueueTail s"
  "eventQueue (handleEventInReady now ev s) = eventQueue s \<and>
   eventQueueHead (handleEventInReady now ev s) = eventQueueHead s \<and>
   eventQueueTail (handleEventInReady now ev s) = eventQueueTail s"
  "eventQueue (handleEventInProduction now ev s) = eventQueue s \<and>
   eventQueueHead (handleEventInProduction now ev s) = eventQueueHead s \<and>
   eventQueueTail (handleEventInProduction now ev s) = eventQueueTail s"
  "eventQueue (handleEventInDiagnostic now ev s) = eventQueue s \<and>
   eventQueueHead (handleEventInDiagnostic now ev s) = eventQueueHead s \<and>
   eventQueueTail (handleEventInDiagnostic now ev s) = eventQueueTail s"
  "eventQueue (handleEventInError now ev s) = eventQueue s \<and>
   eventQueueHead (handleEventInError now ev s) = eventQueueHead s \<and>
   eventQueueTail (handleEventInError now ev s) = eventQueueTail s"
  by (simp_all add: handleEventInInitialization_def handleEventInReady_def
        handleEventInProduction_def handleEventInDiagnostic_def handleEventInError_def
        transitionTo_queue split: SystemEvent.split)

lemma processEvent_queue:
  "eventQueue (processEvent now ev s) = eventQueue s \<and>
   eventQueueHead (processEvent now ev s) = eventQueueHead s \<and>
   eventQueueTail (processEvent now ev s) = eventQueueTail s"
  by (simp add: processEvent_def Let_def handlers_queue split: SystemState.split)

lemma transitionTo_eventCounter:
  "eventCounter (snd (transitionTo now st s)) = eventCounter s"
  by (cases st; cases "currentState s"; simp add: transitionTo_def Let_def)

lemma processEvent_eventCounter:
  "eventCounter (processEvent now ev s) = eventCounter s + 1"
  by (simp add: processEvent_def Let_def handleEventInInitialization_def handleEventInReady_def
        handleEventInProduction_def handleEventInDiagnostic_def handleEventInError_def
        transitionTo_eventCounter split: SystemState.split SystemEvent.split)

subsection \<open>The indices stay in range\<close>

lemma queue_inv_new: "queue_inv StateManager_new"
  by (simp add: queue_inv_def StateManager_new_def EVENT_QUEUE_SIZE_def)

lemma queue_inv_queueEvent: "queue_inv s \<Longrightarrow> queue_inv (queueEvent ev s)"
  by (simp add: queue_inv_def queueEvent_def Let_def EVENT_QUEUE_SIZE_def unat_next_index)

lemma queue_inv_dequeueAndProcess: "queue_inv s \<Longrightarrow> queue_inv (dequeueAndProcess now s)"
  by (simp add: queue_inv_def dequeueAndProcess_def Let_def processEvent_queue EVENT_QUEUE_SIZE_def unat_next_index)

lemma queue_inv_applyOp: "queue_inv s \<Longrightarrow> queue_inv (applyOp now s op)"
  by (cases op) (simp_all add: queue_inv_queueEvent queue_inv_dequeueAndProcess)

lemma queue_inv_runOps: "queue_inv s \<Longrightarrow> queue_inv (runOps now ops s)"
  unfolding runOps_def by (induction ops arbitrary: s) (simp_all add: queue_inv_applyOp)

lemma queue_inv_queueAll: "queue_inv s \<Longrightarrow> queue_inv (queueAll events s)"
  unfolding queueAll_def by (induction events arbitrary: s) (simp_all add: queue_inv_queueEvent)

subsection \<open>What one operation does to the queued events\<close>

lemma occupied_eq:
  "occupied s = (unat (eventQueueTail s) + EVENT_QUEUE_SIZE - unat (eventQueueHead s)) mod EVENT_QUEUE_SIZE"
  by (simp add: occupied_def queuedEvents_def)

lemma occupied_le: "occupied s \<le> 15"
proof -
  have "occupied s < 16"
    by (simp add: occupied_eq EVENT_QUEUE_SIZE_def)
  then show ?thesis by simp
qed

lemma queuedEvents_empty: "\<not> hasQueuedEvents s \<Longrightarrow> queuedEvents s = []"
  by (simp add: hasQueuedEvents_def queuedEvents_def EVENT_QUEUE_SIZE_def)

lemma queuedEvents_new: "queuedEvents StateManager_new = []"
  by (simp add: queuedEvents_def StateManager_new_def EVENT_QUEUE_SIZE_def)

lemma queueEvent_full:
  assumes "queue_inv s" and "occupied s = 15"
  shows "queueEvent ev s = s"
proof -
  have "Suc (unat (eventQueueTail s)) mod 16 = unat (eventQueueHead s)"
    using assms unfolding queue_inv_def occupied_eq EVENT_QUEUE_SIZE_def by (intro full_next_is_head) simp_all
  then show ?thesis
    by (simp add: queueEvent_def Let_def next_index_eq_iff EVENT_QUEUE_SIZE_def)
qed

lemma queueEvent_accepts:
  assumes inv: "queue_inv s" and occ: "occupied s < 15"
  shows "queuedEvents (queueEvent ev s) = queuedEvents s @ [ev]"
proof -
  let ?h = "unat (eventQueueHead s)" and ?t = "unat (eventQueueTail s)"
  let ?n = "(?t + 16 - ?h) mod 16"
  from inv have h: "?h < 16" and t: "?t < 16" and len: "length (eventQueue s) = 16"
    by (simp_all add: queue_inv_def EVENT_QUEUE_SIZE_def)
  from occ have n: "?n < 15" by (simp add: occupied_eq EVENT_QUEUE_SIZE_def)
  have ne: "Suc ?t mod 16 \<noteq> ?h" using h t n by (rule room_next_not_head)
  have n': "(Suc ?t mod 16 + 16 - ?h) mod 16 = Suc ?n" using h t n by (rule room_occupied_Suc)
  have last: "(?h + ?n) mod 16 = ?t" using h t by (rule head_plus_occupied)
  have other: "?t \<noteq> (?h + i) mod 16" if "i < ?n" for i
    using queued_index_not_tail [OF h t that] by simp
  have "queuedEvents (queueEvent ev s) =
        map (\<lambda>i. (eventQueue s)[?t := ev] ! ((?h + i) mod 16)) [0..<Suc ?n]"
    using ne n' by (simp add: queueEvent_def Let_def next_index_eq_iff queuedEvents_def
        EVENT_QUEUE_SIZE_def unat_next_index del: upt_Suc)
  also have "\<dots> = map (\<lambda>i. (eventQueue s)[?t := ev] ! ((?h + i) mod 16)) [0..<?n] @ [ev]"
    using last t len by simp
  also have "map (\<lambda>i. (eventQueue s)[?t := ev] ! ((?h + i) mod 16)) [0..<?n] =
             map (\<lambda>i. eventQueue s ! ((?h + i) mod 16)) [0..<?n]"
    using other by (intro map_cong refl) simp
  finally show ?thesis
    by (simp add: queuedEvents_def EVENT_QUEUE_SIZE_def)
qed

lemma dequeueAndProcess_queued:
  assumes inv: "queue_inv s" and ne: "hasQueuedEvents s"
  shows "queuedEvents s = eventQueue s ! unat (eventQueueHead s) # queuedEvents (dequeueAndProcess now s)"
proof -
  let ?h = "unat (eventQueueHead s)" and ?t = "unat (eventQueueTail s)"
  let ?n = "(?t + 16 - ?h) mod 16"
  let ?m = "(?t + 16 - Suc ?h mod 16) mod 16"
  from inv have h: "?h < 16" and t: "?t < 16"
    by (simp_all add: queue_inv_def EVENT_QUEUE_SIZE_def)
  from ne have "?h \<noteq> ?t" by (simp add: hasQueuedEvents_def word_unat_eq_iff)
  with h t have n: "?n = Suc ?m" by (rule nonempty_occupied_Suc)
  have "queuedEvents s = map (\<lambda>i. eventQueue s ! ((?h + i) mod 16)) [0..<Suc ?m]"
    using n by (simp add: queuedEvents_def EVENT_QUEUE_SIZE_def del: upt_Suc)
  also have "\<dots> = eventQueue s ! ?h # map (\<lambda>i. eventQueue s ! ((?h + Suc i) mod 16)) [0..<?m]"
    using h by (simp add: upt_conv_Cons map_Suc_upt [symmetric] del: upt_Suc)
  finally show ?thesis
    by (simp add: queuedEvents_def dequeueAndProcess_def Let_def processEvent_queue
        EVENT_QUEUE_SIZE_def unat_next_index next_head_shift)
qed

lemma queueFull_iff:
  assumes "queue_inv s"
  shows "(of_nat ((unat (eventQueueTail s) + 1) mod EVENT_QUEUE_SIZE) = eventQueueHead s) \<longleftrightarrow> occupied s = 15"
proof -
  let ?h = "unat (eventQueueHead s)" and ?t = "unat (eventQueueTail s)"
  from assms have h: "?h < 16" and t: "?t < 16"
    by (simp_all add: queue_inv_def EVENT_QUEUE_SIZE_def)
  have "Suc ?t mod 16 = ?h \<longleftrightarrow> (?t + 16 - ?h) mod 16 = 15"
    using full_next_is_head [OF h t] room_next_not_head [OF h t] occupied_le [of s]
    by (auto simp: occupied_eq EVENT_QUEUE_SIZE_def le_less)
  then show ?thesis
    by (simp add: next_index_eq_iff occupied_eq EVENT_QUEUE_SIZE_def)
qed

lemma queueFull_occupied: "queue_inv s \<Longrightarrow> queueFull s \<longleftrightarrow> occupied s = 15"
  unfolding queueFull_def by (rule queueFull_iff)

lemma queueEvent_queueFull: "queueFull s \<Longrightarrow> queueEvent ev s = s"
  by (simp add: queueEvent_def queueFull_def Let_def)

subsection \<open>The buffer is a first-in first-out list of capacity 15\<close>

lemma applyOp_refines:
  assumes "queue_inv s"
  shows "queuedEvents (applyOp now s op) = fifoOp 15 (queuedEvents s) op"
proof (cases op)
  case (Enqueue ev)
  show ?thesis
  proof (cases "occupied s < 15")
    case True
    with assms Enqueue show ?thesis
      by (simp add: queueEvent_accepts) (simp add: occupied_def)
  next
    case False
    with occupied_le [of s] have "occupied s = 15" by simp
    with assms Enqueue show ?thesis
      by (simp add: queueEvent_full) (simp add: occupied_def)
  qed
next
  case Dequeue
  show ?thesis
  proof (cases "hasQueuedEvents s")
    case True
    with assms Dequeue dequeueAndProcess_queued [OF assms True, of now] show ?thesis
      by simp
  next
    case False
    with Dequeue show ?thesis by (simp add: queuedEvents_empty)
  qed
qed

lemma runOps_refines:
  "queue_inv s \<Longrightarrow> queuedEvents (runOps now ops s) = fifoRun 15 ops (queuedEvents s)"
  unfolding runOps_def fifoRun_def
  by (induction ops arbitrary: s) (simp_all add: applyOp_refines queue_inv_applyOp)

lemma queueAll_take: "queuedEvents (queueAll events StateManager_new) = take 15 events"
proof (induction events rule: rev_induct)
  case Nil
  show ?case by (simp add: queueAll_def queuedEvents_new)
next
  case (snoc ev events)
  let ?s = "queueAll events StateManager_new"
  have inv: "queue_inv ?s" by (simp add: queue_inv_queueAll queue_inv_new)
  have step: "queueAll (events @ [ev]) StateManager_new = queueEvent ev ?s"
    by (simp add: queueAll_def)
  show ?case
  proof (cases "occupied ?s < 15")
    case True
    with snoc have "length events < 15" by (simp add: occupied_def)
    with snoc True inv show ?thesis
      by (simp add: step queueEvent_accepts)
  next
    case False
    with occupied_le [of ?s] have full: "occupied ?s = 15" by simp
    with snoc have "15 \<le> length events" by (simp add: occupied_def)
    with snoc full inv show ?thesis
      by (simp add: step queueEvent_full)
  qed
qed

subsection \<open>The loop of the update returns\<close>

text \<open>
  On a state whose indices are in range the loop of \<^verbatim>\<open>update()\<close> returns, with the
  queue empty, after processing as many events as were queued.
\<close>

lemma processQueuedEvents_counts:
  assumes "queue_inv s"
  shows "\<exists>s'. processQueuedEvents now s = Some s' \<and> \<not> hasQueuedEvents s' \<and> queue_inv s' \<and>
           eventCounter s' = eventCounter s + of_nat (occupied s)"
  using assms
proof (induction "occupied s" arbitrary: s)
  case 0
  then have "\<not> hasQueuedEvents s"
    using dequeueAndProcess_queued [of s now] by (auto simp: occupied_def)
  with 0 show ?case
    by (subst processQueuedEvents.simps) simp
next
  case (Suc n)
  have ne: "hasQueuedEvents s"
  proof (rule ccontr)
    assume "\<not> hasQueuedEvents s"
    then have "occupied s = 0" by (simp add: occupied_def queuedEvents_empty)
    with Suc.hyps(2) show False by simp
  qed
  let ?s1 = "dequeueAndProcess now s"
  from Suc.prems have inv1: "queue_inv ?s1" by (rule queue_inv_dequeueAndProcess)
  from Suc.hyps(2) dequeueAndProcess_queued [OF Suc.prems ne, of now]
  have occ1: "n = occupied ?s1" by (simp add: occupied_def)
  from Suc.hyps(1) [OF occ1 inv1] obtain s' where
    s': "processQueuedEvents now ?s1 = Some s'" "\<not> hasQueuedEvents s'" "queue_inv s'"
        "eventCounter s' = eventCounter ?s1 + of_nat (occupied ?s1)" by blast
  have "eventCounter ?s1 = eventCounter s + 1"
    by (simp add: dequeueAndProcess_def Let_def processEvent_eventCounter)
  with s' ne occ1 Suc.hyps(2) show ?case
    by (subst processQueuedEvents.simps) (simp add: Suc.hyps(2) [symmetric])
qed

lemma update_returns:
  "queue_inv s \<Longrightarrow> \<exists>s'. update now s = Some s'"
  using processQueuedEvents_counts [of s now] by (auto simp: update_def)

subsection \<open>Claims about the queue\<close>

text \<open>
  Claim C4. Bounded queue, newest dropped on overflow: whatever sequence of events is
  passed to \<^verbatim>\<open>queueEvent\<close> on a fresh state manager, the queue never holds more than 16
  events; what it holds is an initial segment of that sequence, in the order of
  arrival; and a \<^verbatim>\<open>queueEvent\<close> that finds the queue full changes nothing at all, so
  only the incoming event is lost.
\<close>

theorem event_queue_bounded_drop_newest:
  "occupied (queueAll events StateManager_new) \<le> 16 \<and>
   queuedEvents (queueAll events StateManager_new) =
     take (occupied (queueAll events StateManager_new)) events \<and>
   (queueFull (queueAll events StateManager_new) \<longrightarrow>
      queueEvent event (queueAll events StateManager_new) = queueAll events StateManager_new)"
proof (intro conjI impI)
  show "occupied (queueAll events StateManager_new) \<le> 16"
    using occupied_le [of "queueAll events StateManager_new"] by simp
  show "queuedEvents (queueAll events StateManager_new) =
     take (occupied (queueAll events StateManager_new)) events"
    by (simp add: occupied_def queueAll_take min_def)
  show "queueEvent event (queueAll events StateManager_new) = queueAll events StateManager_new"
    if "queueFull (queueAll events StateManager_new)"
    using that by (rule queueEvent_queueFull)
qed

theorem event_queue_bounded_drop_newest_witness:
  "queueFull (queueAll (replicate 15 EVT_COUNTER_PRESSED) StateManager_new) \<and>
   queueEvent EVT_PRODUCTION_STOP (queueAll (replicate 15 EVT_COUNTER_PRESSED) StateManager_new) =
     queueAll (replicate 15 EVT_COUNTER_PRESSED) StateManager_new"
proof -
  have full: "queueFull (queueAll (replicate 15 EVT_COUNTER_PRESSED) StateManager_new)"
    by code_simp
  with event_queue_bounded_drop_newest [of "replicate 15 EVT_COUNTER_PRESSED" EVT_PRODUCTION_STOP]
  show ?thesis by blast
qed

text \<open>
  Claim C10. The queue stores at most \<^verbatim>\<open>EVENT_QUEUE_SIZE - 1\<close> = 15 events: after any
  sequence of \<^verbatim>\<open>queueEvent\<close> calls and dequeue steps the occupancy is at most 15 and
  the queued events are those of a first-in first-out list of capacity 15; the queue
  reports full exactly when 15 events are queued; a \<^verbatim>\<open>queueEvent\<close> at occupancy 15 is
  rejected and one below 15 appends its event.
\<close>

theorem event_queue_holds_at_most_15:
  "occupied (runOps now ops StateManager_new) \<le> EVENT_QUEUE_SIZE - 1 \<and>
   queuedEvents (runOps now ops StateManager_new) = fifoRun 15 ops [] \<and>
   (queueFull (runOps now ops StateManager_new) \<longleftrightarrow>
      occupied (runOps now ops StateManager_new) = 15) \<and>
   (occupied (runOps now ops StateManager_new) = 15 \<longrightarrow>
      queueEvent event (runOps now ops StateManager_new) = runOps now ops StateManager_new) \<and>
   (occupied (runOps now ops StateManager_new) < 15 \<longrightarrow>
      queuedEvents (queueEvent event (runOps now ops StateManager_new)) =
        queuedEvents (runOps now ops StateManager_new) @ [event])"
proof -
  let ?s = "runOps now ops StateManager_new"
  have inv: "queue_inv ?s"
    by (simp add: queue_inv_runOps queue_inv_new)
  have "occupied ?s \<le> EVENT_QUEUE_SIZE - 1"
    using occupied_le [of ?s] by (simp add: EVENT_QUEUE_SIZE_def)
  moreover have "queuedEvents ?s = fifoRun 15 ops []"
    using runOps_refines [OF queue_inv_new, of now ops] by (simp add: queuedEvents_new)
  moreover note queueFull_occupied [OF inv] queueEvent_full [OF inv] queueEvent_accepts [OF inv]
  ultimately show ?thesis by blast
qed

theorem event_queue_holds_at_most_15_witness:
  "occupied (runOps 0 (map Enqueue (replicate 15 EVT_COUNTER_PRESSED)) StateManager_new) = 15 \<and>
   queueEvent EVT_PRODUCTION_STOP
       (runOps 0 (map Enqueue (replicate 15 EVT_COUNTER_PRESSED)) StateManager_new) =
     runOps 0 (map Enqueue (replicate 15 EVT_COUNTER_PRESSED)) StateManager_new \<and>
   occupied (runOps 0 [Enqueue EVT_PRODUCTION_START, Enqueue EVT_COUNTER_PRESSED, Dequeue]
       StateManager_new) < 15 \<and>
   queuedEvents (queueEvent EVT_PRODUCTION_STOP
       (runOps 0 [Enqueue EVT_PRODUCTION_START, Enqueue EVT_COUNTER_PRESSED, Dequeue]
          StateManager_new)) =
     queuedEvents (runOps 0 [Enqueue EVT_PRODUCTION_START, Enqueue EVT_COUNTER_PRESSED, Dequeue]
          StateManager_new) @ [EVT_PRODUCTION_STOP]"
proof -
  have full: "occupied (runOps 0 (map Enqueue (replicate 15 EVT_COUNTER_PRESSED)) StateManager_new) = 15"
    by code_simp
  have room: "occupied (runOps 0 [Enqueue EVT_PRODUCTION_START, Enqueue EVT_COUNTER_PRESSED, Dequeue]
       StateManager_new) < 15"
    by code_simp
  from full room
    event_queue_holds_at_most_15 [of 0 "map Enqueue (replicate 15 EVT_COUNTER_PRESSED)" EVT_PRODUCTION_STOP]
    event_queue_holds_at_most_15 [of 0 "[Enqueue EVT_PRODUCTION_START, Enqueue EVT_COUNTER_PRESSED, Dequeue]" EVT_PRODUCTION_STOP]
  show ?thesis by blast
qed

section \<open>Guarded transitions\<close>

lemma transitionTo_currentState:
  "currentState (snd (transitionTo now st s)) = (if fst (transitionTo now st s) then st else currentState s)"
  by (cases st; simp add: transitionTo_def Let_def)

lemma transitionTo_DIAGNOSTIC_only_from_READY:
  "fst (transitionTo now DIAGNOSTIC s) \<Longrightarrow> currentState s = READY"
  by (simp add: transitionTo_def canEnterDiagnostic_def split: if_splits)

lemma processEvent_DIAGNOSTIC:
  assumes "currentState (processEvent now ev s) = DIAGNOSTIC"
  shows "currentState s = READY \<or> currentState s = DIAGNOSTIC"
  using assms
  by (cases "currentState s"; cases ev;
      simp add: processEvent_def Let_def handleEventInInitialization_def handleEventInReady_def
        handleEventInProduction_def handleEventInDiagnostic_def handleEventInError_def
        transitionTo_currentState split: if_splits)

lemma updateSubStates_DIAGNOSTIC:
  "currentState (updateSubStates now s) = DIAGNOSTIC \<Longrightarrow> currentState s = DIAGNOSTIC"
  by (cases "currentState s")
     (simp_all add: updateSubStates_def transitionTo_currentState split: if_splits)

text \<open>
  Claim C6. Guard law: when \<^verbatim>\<open>transitionTo(PRODUCTION)\<close> has succeeded, a second
  \<^verbatim>\<open>transitionTo(PRODUCTION)\<close> issued right after it returns \<^verbatim>\<open>false\<close> and leaves
  the state manager as it was, in \<open>PRODUCTION\<close>.
\<close>

theorem production_guard_law:
  assumes "fst (transitionTo t1 PRODUCTION s)"
  shows "transitionTo t2 PRODUCTION (snd (transitionTo t1 PRODUCTION s)) =
           (False, snd (transitionTo t1 PRODUCTION s)) \<and>
         currentState (snd (transitionTo t1 PRODUCTION s)) = PRODUCTION"
  using assms
  by (auto simp: transitionTo_def Let_def canStartProduction_def split: if_splits)

theorem production_guard_law_witness:
  "fst (transitionTo 20 PRODUCTION example_ready) \<and>
   transitionTo 30 PRODUCTION (snd (transitionTo 20 PRODUCTION example_ready)) =
     (False, snd (transitionTo 20 PRODUCTION example_ready)) \<and>
   currentState (snd (transitionTo 20 PRODUCTION example_ready)) = PRODUCTION"
proof -
  have ok: "fst (transitionTo 20 PRODUCTION example_ready)"
    by code_simp
  from production_guard_law [OF ok, of 30] ok show ?thesis by blast
qed

text \<open>
  Claim C7. No edge from \<open>PRODUCTION\<close> to \<open>DIAGNOSTIC\<close>: in \<open>PRODUCTION\<close> a request
  \<^verbatim>\<open>transitionTo(DIAGNOSTIC)\<close> is refused and changes nothing, and the event
  \<^verbatim>\<open>EVT_DIAGNOSTIC_REQUEST\<close> leaves the machine in \<open>PRODUCTION\<close>. \<open>DIAGNOSTIC\<close> is
  entered from \<open>READY\<close> only: a successful \<^verbatim>\<open>transitionTo(DIAGNOSTIC)\<close> starts in
  \<open>READY\<close>, and neither an event nor the timeouts of \<^verbatim>\<open>update()\<close> bring the machine
  into \<open>DIAGNOSTIC\<close> from any other state. (The event dispatch of
  \<^verbatim>\<open>fsm_main_integration.cpp\<close> passes a diagnostic request made during production to
  the state manager's transition function, whose guard is the one verified here.)
\<close>

theorem no_production_diagnostic_edge:
  "(currentState s = PRODUCTION \<longrightarrow>
      transitionTo now DIAGNOSTIC s = (False, s) \<and>
      currentState (processEvent now EVT_DIAGNOSTIC_REQUEST s) = PRODUCTION) \<and>
   (fst (transitionTo now DIAGNOSTIC s) \<longrightarrow> currentState s = READY) \<and>
   (currentState (processEvent now event s) = DIAGNOSTIC \<longrightarrow>
      currentState s = READY \<or> currentState s = DIAGNOSTIC) \<and>
   (currentState (updateSubStates now s) = DIAGNOSTIC \<longrightarrow> currentState s = DIAGNOSTIC)"
proof (intro conjI impI)
  assume prod: "currentState s = PRODUCTION"
  then show "transitionTo now DIAGNOSTIC s = (False, s)"
    by (simp add: transitionTo_def canEnterDiagnostic_def)
  from prod show "currentState (processEvent now EVT_DIAGNOSTIC_REQUEST s) = PRODUCTION"
    by (simp add: processEvent_def Let_def handleEventInProduction_def)
next
  assume "fst (transitionTo now DIAGNOSTIC s)"
  then show "currentState s = READY" by (rule transitionTo_DIAGNOSTIC_only_from_READY)
next
  assume "currentState (processEvent now event s) = DIAGNOSTIC"
  then show "currentState s = READY \<or> currentState s = DIAGNOSTIC"
    by (rule processEvent_DIAGNOSTIC)
next
  assume "currentState (updateSubStates now s) = DIAGNOSTIC"
  then show "currentState s = DIAGNOSTIC" by (rule updateSubStates_DIAGNOSTIC)
qed

theorem no_production_diagnostic_edge_witness:
  "currentState example_production = PRODUCTION \<and>
   transitionTo 30 DIAGNOSTIC example_production = (False, example_production) \<and>
   currentState (processEvent 30 EVT_DIAGNOSTIC_REQUEST example_production) = PRODUCTION \<and>
   fst (transitionTo 20 DIAGNOSTIC example_ready) \<and> currentState example_ready = READY \<and>
   currentState (processEvent 20 EVT_DIAGNOSTIC_REQUEST example_ready) = DIAGNOSTIC \<and>
   currentState (updateSubStates 30 example_diagnostic) = DIAGNOSTIC \<and>
   currentState example_diagnostic = DIAGNOSTIC"
proof -
  have p: "currentState example_production = PRODUCTION"
    by code_simp
  have r: "fst (transitionTo 20 DIAGNOSTIC example_ready)"
    by code_simp
  have e: "currentState (processEvent 20 EVT_DIAGNOSTIC_REQUEST example_ready) = DIAGNOSTIC"
    by code_simp
  have d: "currentState (updateSubStates 30 example_diagnostic) = DIAGNOSTIC"
    by code_simp
  from p r e d
    no_production_diagnostic_edge [of example_production 30 EVT_DIAGNOSTIC_REQUEST]
    no_production_diagnostic_edge [of example_ready 20 EVT_DIAGNOSTIC_REQUEST]
    no_production_diagnostic_edge [of example_diagnostic 30 EVT_DIAGNOSTIC_REQUEST]
  show ?thesis by blast
qed

section \<open>Production sessions of the manager\<close>


lemma incrementCount_active [simp]:
  "sessionActive (incrementCount pm) = sessionActive pm"
  by (simp add: incrementCount_def)

lemma incrementCount_funpow_active [simp]:
  "sessionActive ((incrementCount ^^ n) pm) = sessionActive pm"
  by (induction n) simp_all





text \<open>
  Claim C3, as amended. \<^verbatim>\<open>stopSession()\<close> on an active session returns \<^verbatim>\<open>true\<close>,
  records the stop time, adds the session count to the total, clears the active flag
  and leaves the session count as it is; the count goes back to 0 at the next
  \<^verbatim>\<open>startSession()\<close>. On an inactive session it returns \<^verbatim>\<open>false\<close> and changes
  nothing.
\<close>

theorem stop_session_keeps_count:
  "(sessionActive pm \<longrightarrow>
      fst (stopSession now pm) \<and>
      sessionStopTime (snd (stopSession now pm)) = now \<and>
      totalSessionCount (snd (stopSession now pm)) = totalSessionCount pm + sessionCount pm \<and>
      sessionCount (snd (stopSession now pm)) = sessionCount pm \<and>
      \<not> sessionActive (snd (stopSession now pm)) \<and>
      sessionCount (snd (startSession now' (snd (stopSession now pm)))) = 0) \<and>
   (\<not> sessionActive pm \<longrightarrow> stopSession now pm = (False, pm))"
  by (simp add: stopSession_def startSession_def)

theorem stop_session_keeps_count_witness:
  "sessionActive (incrementCount example_session) \<and>
   fst (stopSession example_time_later (incrementCount example_session)) \<and>
   totalSessionCount (snd (stopSession example_time_later (incrementCount example_session))) = 1 \<and>
   sessionCount (snd (stopSession example_time_later (incrementCount example_session))) = 1 \<and>
   \<not> sessionActive ProductionManager_new \<and>
   stopSession example_time ProductionManager_new = (False, ProductionManager_new)"
proof -
  have act: "sessionActive (incrementCount example_session)"
    by (simp add: example_session_def startSession_def ProductionManager_new_def)
  have cnt: "sessionCount (incrementCount example_session) = 1"
    by (simp add: example_session_def startSession_def ProductionManager_new_def
        incrementCount_def word_sless_alt)
  have tot: "totalSessionCount (incrementCount example_session) = 0"
    by (simp add: example_session_def startSession_def ProductionManager_new_def
        incrementCount_def)
  have idle: "\<not> sessionActive ProductionManager_new"
    by (simp add: ProductionManager_new_def)
  from act cnt tot idle
    stop_session_keeps_count [of "incrementCount example_session" example_time_later example_time]
    stop_session_keeps_count [of ProductionManager_new example_time example_time]
  show ?thesis by simp
qed

text \<open>
  Claim C3 as stated has \<^verbatim>\<open>stopSession()\<close> reset the session count to 0. After one
  counted item the count is still 1 when the session has been stopped.
\<close>

theorem stop_session_resets_count_counterexample:
  "sessionActive (incrementCount example_session) \<and>
   sessionCount (snd (stopSession example_time_later (incrementCount example_session))) \<noteq> 0"
  by (simp add: example_session_def startSession_def ProductionManager_new_def
      incrementCount_def stopSession_def word_sless_alt)

section \<open>Hour boundary of the time manager\<close>





section \<open>Recovery of a production session in the sketch\<close>

subsection \<open>Fields through the session state file\<close>

text \<open>
  Every \<^verbatim>\<open>DateTime\<close> survives being written to the session state file and read
  back; a value read from the file survives the conversion to the constructor's
  parameter type when it lies in that type's range.
\<close>

lemma year_roundtrip:
  "(ucast (ucast (year dt) :: 32 word) :: 16 word) = year dt"
  by (simp add: ucast_up_ucast_id is_up)

lemma yOff_roundtrip: "(ucast (if 2000 \<le> year dt then year dt - 2000 else year dt) :: 8 word) = dt_yOff dt"
proof -
  have "uint (ucast (dt_yOff dt) :: 16 word) = uint (dt_yOff dt)"
    by (simp add: uint_up_ucast is_up)
  moreover have "uint (dt_yOff dt) < 256" using uint_bounded [of "dt_yOff dt"] by simp
  ultimately have "uint (2000 + ucast (dt_yOff dt) :: 16 word) = 2000 + uint (dt_yOff dt)"
    by (simp add: uint_word_ariths take_bit_int_eq_self)
  then have "2000 \<le> year dt"
    by (simp add: year_def word_le_def)
  then show ?thesis
    by (simp add: year_def ucast_up_ucast_id is_up)
qed

lemma DateTime_roundtrip:
  "DateTime_ymdhms (ucast (ucast (year dt) :: 32 word)) (ucast (ucast (month dt) :: 32 word))
     (ucast (ucast (day dt) :: 32 word)) (ucast (ucast (hour dt) :: 32 word))
     (ucast (ucast (minute dt) :: 32 word)) (ucast (ucast (second dt) :: 32 word)) = dt"
  by (simp add: DateTime_ymdhms_def year_roundtrip yOff_roundtrip ucast_up_ucast_id is_up
      month_def day_def hour_def minute_def second_def)

lemma ucast_of_int_small:
  assumes "0 \<le> k" and "k < 2 ^ LENGTH('a)" and "k < 2 ^ LENGTH('b)"
  shows "(ucast (of_int k :: 'a::len word) :: 'b::len word) = of_int k"
  using assms by (simp add: ucast_eq uint_word_of_int_eq take_bit_int_eq_self)

lemma uint_of_int_small:
  assumes "0 \<le> k" and "k < 2 ^ LENGTH('a)"
  shows "uint (of_int k :: 'a::len word) = k"
  using assms by (simp add: uint_word_of_int_eq take_bit_int_eq_self)

lemma field_roundtrip:
  assumes "0 <=s (w :: 32 word)" and "w <=s 255"
  shows "(ucast (ucast w :: 8 word) :: 32 word) = w"
proof -
  define k where "k = sint w"
  from assms have s: "0 \<le> k" "k \<le> 255"
    by (simp_all add: word_sle_eq k_def)
  have w: "w = of_int k" by (simp add: k_def)
  have "(ucast (ucast (of_int k :: 32 word) :: 8 word) :: 32 word) = of_int k"
    using s by (simp add: ucast_of_int_small)
  then show ?thesis by (simp only: w)
qed

lemma year_field_roundtrip:
  assumes "2020 <=s (w :: 32 word)" and "w <=s 2100"
  shows "(ucast (year (DateTime_ymdhms (ucast w) mo dy h mi sc)) :: 32 word) = w"
proof -
  define k where "k = sint w"
  from assms have s: "2020 \<le> k" "k \<le> 2100"
    by (simp_all add: word_sle_eq k_def)
  have w: "w = of_int k" by (simp add: k_def)
  have y16: "(ucast (of_int k :: 32 word) :: 16 word) = of_int k"
    using s by (simp add: ucast_of_int_small)
  have ge: "(2000 :: 16 word) \<le> of_int k"
    using s by (simp add: word_le_def uint_of_int_small)
  define j where "j = k - 2000"
  from s have j: "0 \<le> j" "j \<le> 100" by (simp_all add: j_def)
  have off: "(of_int k :: 16 word) - 2000 = of_int j"
    by (simp add: j_def)
  have y8: "(ucast (of_int j :: 16 word) :: 8 word) = of_int j"
    using j by (simp add: ucast_of_int_small)
  have widen: "(ucast (of_int j :: 8 word) :: 16 word) = of_int j"
    using j by (simp add: ucast_of_int_small)
  have add_back: "(2000 :: 16 word) + of_int j = of_int k"
    by (simp add: j_def)
  have "year (DateTime_ymdhms (ucast (of_int k :: 32 word)) mo dy h mi sc) = of_int k"
    unfolding year_def DateTime_ymdhms_def using ge
    by (simp only: y16 if_True off y8 widen DateTime.simps add_back)
  moreover have "(ucast (of_int k :: 16 word) :: 32 word) = of_int k"
    using s by (simp add: ucast_of_int_small)
  ultimately show ?thesis by (simp only: w)
qed

lemma saved_time_passes_test:
  assumes "startTimeInRange dt"
  shows "2020 <=s (ucast (year dt) :: 32 word) \<and> (ucast (year dt) :: 32 word) <=s 2100 \<and>
         1 <=s (ucast (month dt) :: 32 word) \<and> (ucast (month dt) :: 32 word) <=s 12 \<and>
         1 <=s (ucast (day dt) :: 32 word) \<and> (ucast (day dt) :: 32 word) <=s 31 \<and>
         (ucast (hour dt) :: 32 word) <=s 23 \<and> (ucast (minute dt) :: 32 word) <=s 59 \<and>
         (ucast (second dt) :: 32 word) <=s 59"
  using assms
  by (simp add: startTimeInRange_def word_sle_eq sint_ucast16 sint_ucast8 word_le_def)

subsection \<open>The start-up code before the restore\<close>

lemma writeCountToFile_other [simp]:
  "productionStateFile (writeCountToFile filename count sdc) = productionStateFile sdc"
  "openFails (writeCountToFile filename count sdc) = openFails sdc"
  by (simp_all add: writeCountToFile_def Let_def)

lemma initializeFiles_other [simp]:
  "productionStateFile (initializeFiles sdc) = productionStateFile sdc"
  "openFails (initializeFiles sdc) = openFails sdc"
  by (simp_all add: initializeFiles_def initializeFile_def)

lemma Globals_init_fields [simp]:
  "sd (Globals_init sdc) = sdc"
  "sdAvailable (Globals_init sdc) = False"
  "rtcAvailable (Globals_init sdc) = False"
  by (simp_all add: Globals_init_def)

lemma setup_loadCounts_session [simp]:
  "productionStateFile (sd (setup_loadCounts g)) = productionStateFile (sd g)"
  "openFails (sd (setup_loadCounts g)) = openFails (sd g)"
  "sdAvailable (setup_loadCounts g) = sdAvailable g"
  "rtcAvailable (setup_loadCounts g) = rtcAvailable g"
  by (simp_all add: setup_loadCounts_def Let_def)

lemma setup_latch_session [simp]:
  "productionStateFile (sd (setup_latch latchPressed rtcNow g)) = productionStateFile (sd g)"
  "openFails (sd (setup_latch latchPressed rtcNow g)) = openFails (sd g)"
  "sdAvailable (setup_latch latchPressed rtcNow g) = sdAvailable g"
  "productionActive (setup_latch latchPressed rtcNow g) = latchPressed"
  "productionCount (setup_latch latchPressed rtcNow g) = 0"
  by (simp_all add: setup_latch_def Let_def split: if_splits)

lemma restoreProductionState_sd [simp]:
  "sd (restoreProductionState g) = sd g"
  by (simp add: restoreProductionState_def Let_def split: option.splits)

lemma setup_sketch_before_restore:
  "setup_sketch sdOk rtcOk latchPressed rtcNow sdc =
     (let g3 = restoreProductionState
                 (setup_latch latchPressed rtcNow
                    (setup_loadCounts ((Globals_init sdc)\<lparr> sdAvailable := sdOk, rtcAvailable := rtcOk \<rparr>)))
      in g3\<lparr> lastHour := (if rtcAvailable g3 then uint (hour rtcNow) else 0) \<rparr>)"
  by (simp add: setup_sketch_def Let_def)

subsection \<open>What the restore accepts\<close>

lemma restore_test_iff_spec:
  assumes "0 <=s file_hour f" "0 <=s file_minute f" "0 <=s file_second f"
  shows "(2020 <=s file_year f \<and> file_year f <=s 2100 \<and>
          1 <=s file_month f \<and> file_month f <=s 12 \<and>
          1 <=s file_day f \<and> file_day f <=s 31 \<and>
          file_hour f <=s 23 \<and> file_minute f <=s 59 \<and> file_second f <=s 59) \<longleftrightarrow>
         (spec_snapshot_valid 2020 f \<and> file_year f <=s 2100)"
  using assms by (auto simp: spec_snapshot_valid_def)

lemma restoreProductionState_skips:
  assumes "\<not> sdAvailable g \<or> productionStateFile (sd g) = None \<or> openFails (sd g)"
  shows "restoreProductionState g = g"
  using assms by (auto simp: restoreProductionState_def split: option.splits)

lemma restoreProductionState_rejects:
  assumes snap: "productionStateFile (sd g) = Some f"
    and nonneg: "0 <=s file_hour f" "0 <=s file_minute f" "0 <=s file_second f"
    and bad: "\<not> (spec_snapshot_valid 2020 f \<and> file_year f <=s 2100)"
  shows "restoreProductionState g = g"
proof -
  from restore_test_iff_spec [OF nonneg] bad
  have "\<not> (2020 <=s file_year f \<and> file_year f <=s 2100 \<and>
          1 <=s file_month f \<and> file_month f <=s 12 \<and>
          1 <=s file_day f \<and> file_day f <=s 31 \<and>
          file_hour f <=s 23 \<and> file_minute f <=s 59 \<and> file_second f <=s 59)"
    by blast
  then show ?thesis
    unfolding restoreProductionState_def snap by (simp only: option.case if_False if_cancel)
qed

lemma restoreProductionState_restores:
  assumes avail: "sdAvailable g" "\<not> openFails (sd g)"
    and snap: "productionStateFile (sd g) = Some f"
    and ok: "spec_snapshot_valid 2020 f" "file_year f <=s 2100"
  shows "productionActive (restoreProductionState g) \<and>
         currentCount (restoreProductionState g) = file_currentCount f \<and>
         productionStartCount (restoreProductionState g) = file_startCount f \<and>
         productionCount (restoreProductionState g) = file_currentCount f - file_startCount f \<and>
         ucast (year (productionStartTime (restoreProductionState g))) = file_year f \<and>
         ucast (month (productionStartTime (restoreProductionState g))) = file_month f \<and>
         ucast (day (productionStartTime (restoreProductionState g))) = file_day f \<and>
         ucast (hour (productionStartTime (restoreProductionState g))) = file_hour f \<and>
         ucast (minute (productionStartTime (restoreProductionState g))) = file_minute f \<and>
         ucast (second (productionStartTime (restoreProductionState g))) = file_second f"
proof -
  from ok(1) have v:
    "2020 <=s file_year f" "1 <=s file_month f" "file_month f <=s 12"
    "1 <=s file_day f" "file_day f <=s 31" "0 <=s file_hour f" "file_hour f <=s 23"
    "0 <=s file_minute f" "file_minute f <=s 59" "0 <=s file_second f" "file_second f <=s 59"
    by (simp_all add: spec_snapshot_valid_def)
  have fields:
    "(ucast (ucast (file_month f) :: 8 word) :: 32 word) = file_month f"
    "(ucast (ucast (file_day f) :: 8 word) :: 32 word) = file_day f"
    "(ucast (ucast (file_hour f) :: 8 word) :: 32 word) = file_hour f"
    "(ucast (ucast (file_minute f) :: 8 word) :: 32 word) = file_minute f"
    "(ucast (ucast (file_second f) :: 8 word) :: 32 word) = file_second f"
    using v by (auto intro!: field_roundtrip simp: word_sle_eq)
  have g': "restoreProductionState g =
      g\<lparr> productionActive := True, currentCount := file_currentCount f,
         productionStartCount := file_startCount f,
         productionStartTime :=
           DateTime_ymdhms (ucast (file_year f)) (ucast (file_month f))
             (ucast (file_day f)) (ucast (file_hour f))
             (ucast (file_minute f)) (ucast (file_second f)),
         productionCount := file_currentCount f - file_startCount f \<rparr>"
    using avail snap v ok(2) by (simp add: restoreProductionState_def Let_def)
  show ?thesis
    unfolding g' using year_field_roundtrip [OF v(1) ok(2)] fields
    by (simp add: month_def day_def hour_def minute_def second_def)
       (simp add: DateTime_ymdhms_def)
qed

lemma restoreProductionState_of_saved:
  assumes "sdAvailable g" "\<not> openFails (sd g)"
    and "productionStateFile (sd g) = Some
           \<lparr> file_currentCount = c, file_startCount = s,
             file_year = ucast (year dt), file_month = ucast (month dt),
             file_day = ucast (day dt), file_hour = ucast (hour dt),
             file_minute = ucast (minute dt), file_second = ucast (second dt) \<rparr>"
    and "startTimeInRange dt"
  shows "restoreProductionState g =
           g\<lparr> productionActive := True, currentCount := c, productionStartCount := s,
              productionStartTime := dt, productionCount := c - s \<rparr>"
  using assms(1-3) saved_time_passes_test [OF assms(4)]
  by (simp add: restoreProductionState_def Let_def DateTime_roundtrip)

lemma boot_restores:
  assumes snap: "productionStateFile sdc = Some f"
    and ok: "sdOk" "\<not> openFails sdc" "spec_snapshot_valid 2020 f" "file_year f <=s 2100"
  shows "productionActive (setup_sketch sdOk rtcOk latchPressed rtcNow sdc) \<and>
         productionCount (setup_sketch sdOk rtcOk latchPressed rtcNow sdc) =
           file_currentCount f - file_startCount f \<and>
         currentCount (setup_sketch sdOk rtcOk latchPressed rtcNow sdc) -
           productionStartCount (setup_sketch sdOk rtcOk latchPressed rtcNow sdc) =
           file_currentCount f - file_startCount f \<and>
         ucast (year (productionStartTime (setup_sketch sdOk rtcOk latchPressed rtcNow sdc))) = file_year f \<and>
         ucast (month (productionStartTime (setup_sketch sdOk rtcOk latchPressed rtcNow sdc))) = file_month f \<and>
         ucast (day (productionStartTime (setup_sketch sdOk rtcOk latchPressed rtcNow sdc))) = file_day f \<and>
         ucast (hour (productionStartTime (setup_sketch sdOk rtcOk latchPressed rtcNow sdc))) = file_hour f \<and>
         ucast (minute (productionStartTime (setup_sketch sdOk rtcOk latchPressed rtcNow sdc))) = file_minute f \<and>
         ucast (second (productionStartTime (setup_sketch sdOk rtcOk latchPressed rtcNow sdc))) = file_second f"
proof -
  let ?g2 = "setup_latch latchPressed rtcNow
               (setup_loadCounts ((Globals_init sdc)\<lparr> sdAvailable := sdOk, rtcAvailable := rtcOk \<rparr>))"
  have pre: "sdAvailable ?g2" "\<not> openFails (sd ?g2)" "productionStateFile (sd ?g2) = Some f"
    using snap ok(1,2) by simp_all
  from restoreProductionState_restores [OF pre ok(3,4)] show ?thesis
    by (simp add: setup_sketch_before_restore Let_def)
qed

lemma boot_skips:
  assumes "restoreProductionState
             (setup_latch latchPressed rtcNow
                (setup_loadCounts ((Globals_init sdc)\<lparr> sdAvailable := sdOk, rtcAvailable := rtcOk \<rparr>))) =
           setup_latch latchPressed rtcNow
                (setup_loadCounts ((Globals_init sdc)\<lparr> sdAvailable := sdOk, rtcAvailable := rtcOk \<rparr>))"
  shows "productionActive (setup_sketch sdOk rtcOk latchPressed rtcNow sdc) = latchPressed \<and>
         productionCount (setup_sketch sdOk rtcOk latchPressed rtcNow sdc) = 0 \<and>
         productionStateFile (sd (setup_sketch sdOk rtcOk latchPressed rtcNow sdc)) = productionStateFile sdc"
  by (simp add: setup_sketch_before_restore Let_def assms)

lemma boot_rejects:
  assumes snap: "productionStateFile sdc = Some f"
    and nonneg: "0 <=s file_hour f" "0 <=s file_minute f" "0 <=s file_second f"
    and bad: "\<not> (sdOk \<and> \<not> openFails sdc \<and> spec_snapshot_valid 2020 f \<and> file_year f <=s 2100)"
  shows "productionActive (setup_sketch sdOk rtcOk latchPressed rtcNow sdc) = latchPressed \<and>
         productionCount (setup_sketch sdOk rtcOk latchPressed rtcNow sdc) = 0 \<and>
         productionStateFile (sd (setup_sketch sdOk rtcOk latchPressed rtcNow sdc)) = Some f"
proof -
  let ?g2 = "setup_latch latchPressed rtcNow
               (setup_loadCounts ((Globals_init sdc)\<lparr> sdAvailable := sdOk, rtcAvailable := rtcOk \<rparr>))"
  have pre: "sdAvailable ?g2 = sdOk" "openFails (sd ?g2) = openFails sdc"
    "productionStateFile (sd ?g2) = Some f"
    using snap by simp_all
  have "restoreProductionState ?g2 = ?g2"
  proof (cases "sdOk \<and> \<not> openFails sdc")
    case True
    with bad have "\<not> (spec_snapshot_valid 2020 f \<and> file_year f <=s 2100)" by blast
    from restoreProductionState_rejects [OF pre(3) nonneg this] show ?thesis .
  next
    case False
    with pre have "\<not> sdAvailable ?g2 \<or> productionStateFile (sd ?g2) = None \<or> openFails (sd ?g2)"
      by blast
    then show ?thesis by (rule restoreProductionState_skips)
  qed
  from boot_skips [OF this] snap show ?thesis by simp
qed

lemma boot_without_snapshot:
  assumes "productionStateFile sdc = None"
  shows "productionActive (setup_sketch sdOk rtcOk latchPressed rtcNow sdc) = latchPressed"
proof -
  let ?g2 = "setup_latch latchPressed rtcNow
               (setup_loadCounts ((Globals_init sdc)\<lparr> sdAvailable := sdOk, rtcAvailable := rtcOk \<rparr>))"
  have "productionStateFile (sd ?g2) = None"
    using assms by simp
  then have "restoreProductionState ?g2 = ?g2"
    by (simp add: restoreProductionState_skips)
  from boot_skips [OF this] show ?thesis by simp
qed

text \<open>
  Claim C2, as amended. At start-up the session is restored from the session state
  file, to active, with the saved current count minus the saved start count as the
  session count and the saved start time, when the card is available, the file exists
  and opens, and its year is 2020 to 2100, its month 1 to 12, its day 1 to 31, its hour
  0 to 23 and its minute and second 0 to 59. A file whose hour, minute and second are
  not negative and that fails this test, or that cannot be read, is skipped: it stays
  on the card and the session is what the latch logic of the start-up made it, active
  exactly when the production latch is held, with a count of 0. Without a file the
  session is active exactly when the latch is held.
\<close>

theorem boot_restores_validated_snapshot:
  "(productionStateFile sdc = Some f \<and>
    sdOk \<and> \<not> openFails sdc \<and> spec_snapshot_valid 2020 f \<and> file_year f <=s 2100 \<longrightarrow>
      productionActive (setup_sketch sdOk rtcOk latchPressed rtcNow sdc) \<and>
      productionCount (setup_sketch sdOk rtcOk latchPressed rtcNow sdc) =
        file_currentCount f - file_startCount f \<and>
      currentCount (setup_sketch sdOk rtcOk latchPressed rtcNow sdc) -
        productionStartCount (setup_sketch sdOk rtcOk latchPressed rtcNow sdc) =
        file_currentCount f - file_startCount f \<and>
      ucast (year (productionStartTime (setup_sketch sdOk rtcOk latchPressed rtcNow sdc))) = file_year f \<and>
      ucast (month (productionStartTime (setup_sketch sdOk rtcOk latchPressed rtcNow sdc))) = file_month f \<and>
      ucast (day (productionStartTime (setup_sketch sdOk rtcOk latchPressed rtcNow sdc))) = file_day f \<and>
      ucast (hour (productionStartTime (setup_sketch sdOk rtcOk latchPressed rtcNow sdc))) = file_hour f \<and>
      ucast (minute (productionStartTime (setup_sketch sdOk rtcOk latchPressed rtcNow sdc))) = file_minute f \<and>
      ucast (second (productionStartTime (setup_sketch sdOk rtcOk latchPressed rtcNow sdc))) = file_second f) \<and>
   (productionStateFile sdc = Some f \<and>
    0 <=s file_hour f \<and> 0 <=s file_minute f \<and> 0 <=s file_second f \<and>
    \<not> (sdOk \<and> \<not> openFails sdc \<and> spec_snapshot_valid 2020 f \<and> file_year f <=s 2100) \<longrightarrow>
      productionActive (setup_sketch sdOk rtcOk latchPressed rtcNow sdc) = latchPressed \<and>
      productionCount (setup_sketch sdOk rtcOk latchPressed rtcNow sdc) = 0 \<and>
      productionStateFile (sd (setup_sketch sdOk rtcOk latchPressed rtcNow sdc)) = Some f) \<and>
   (productionStateFile sdc = None \<longrightarrow>
      productionActive (setup_sketch sdOk rtcOk latchPressed rtcNow sdc) = latchPressed)"
  using boot_restores [where sdc = sdc and f = f and sdOk = sdOk and rtcOk = rtcOk
      and latchPressed = latchPressed and rtcNow = rtcNow]
    boot_rejects [where sdc = sdc and f = f and sdOk = sdOk and rtcOk = rtcOk
      and latchPressed = latchPressed and rtcNow = rtcNow]
    boot_without_snapshot [where sdc = sdc and sdOk = sdOk and rtcOk = rtcOk
      and latchPressed = latchPressed and rtcNow = rtcNow]
  by blast

theorem boot_restores_validated_snapshot_witness:
  "productionStateFile (sd example_three_saved) = Some
     \<lparr> file_currentCount = 3, file_startCount = 0, file_year = 2025, file_month = 11,
       file_day = 30, file_hour = 8, file_minute = 15, file_second = 0 \<rparr> \<and>
   \<not> openFails (sd example_three_saved) \<and>
   productionActive (setup_sketch True True False example_time_later (sd example_three_saved)) \<and>
   productionCount (setup_sketch True True False example_time_later (sd example_three_saved)) = 3 \<and>
   productionStateFile (example_card_with example_snapshot_month13) = Some example_snapshot_month13 \<and>
   \<not> spec_snapshot_valid 2020 example_snapshot_month13 \<and>
   \<not> productionActive (setup_sketch True True False example_time
        (example_card_with example_snapshot_month13)) \<and>
   productionStateFile example_card_empty = None \<and>
   \<not> productionActive (setup_sketch True True False example_time example_card_empty)"
proof -
  let ?f = "\<lparr> file_currentCount = 3, file_startCount = 0, file_year = 2025, file_month = 11,
       file_day = 30, file_hour = 8, file_minute = 15, file_second = 0 \<rparr>"
  have saved: "productionStateFile (sd example_three_saved) = Some ?f"
    "\<not> openFails (sd example_three_saved)"
    by code_simp+
  have valid: "spec_snapshot_valid 2020 ?f" "file_year ?f <=s 2100"
    by code_simp+
  have bad: "productionStateFile (example_card_with example_snapshot_month13) =
      Some example_snapshot_month13"
    "0 <=s file_hour example_snapshot_month13" "0 <=s file_minute example_snapshot_month13"
    "0 <=s file_second example_snapshot_month13"
    "\<not> spec_snapshot_valid 2020 example_snapshot_month13"
    by code_simp+
  have none: "productionStateFile example_card_empty = None"
    by code_simp
  from saved valid bad none
    boot_restores_validated_snapshot [of "sd example_three_saved" ?f True True False example_time_later]
    boot_restores_validated_snapshot [of "example_card_with example_snapshot_month13"
      example_snapshot_month13 True True False example_time]
    boot_restores_validated_snapshot [of example_card_empty ?f True True False example_time]
  show ?thesis by simp
qed

text \<open>
  Claim C2 as stated restores every snapshot whose fields are in the ranges it lists,
  which bound the year from below only. A snapshot dated 2101 is in those ranges and is
  not restored.
\<close>

theorem boot_rejects_in_range_snapshot_counterexample:
  "spec_snapshot_valid 2020 example_snapshot_2101 \<and>
   productionStateFile (example_card_with example_snapshot_2101) = Some example_snapshot_2101 \<and>
   \<not> productionActive (setup_sketch True True False example_time
        (example_card_with example_snapshot_2101))"
  by code_simp

subsection \<open>Round trip through a power cut\<close>

lemma handleInterrupt_counts:
  assumes "t - lastInterruptTime g > cachedDebounceDelay g"
    and "productionActive g" and "currentCount g <s MAX_COUNT"
  shows "handleInterrupt t g =
           g\<lparr> currentCount := currentCount g + 1, countChanged := True, lastInterruptTime := t \<rparr>"
  using assms by (simp add: handleInterrupt_def)

lemma startProduction_saves:
  assumes "rtcAvailable g" "sdAvailable g" "\<not> openFails (sd g)"
  shows "startProduction now g =
           g\<lparr> productionActive := True, productionStartTime := now,
              productionStartCount := currentCount g, productionCount := 0,
              sd := (sd g)\<lparr> productionStateFile := Some
                \<lparr> file_currentCount = currentCount g, file_startCount = currentCount g,
                  file_year = ucast (year now), file_month = ucast (month now),
                  file_day = ucast (day now), file_hour = ucast (hour now),
                  file_minute = ucast (minute now), file_second = ucast (second now) \<rparr> \<rparr> \<rparr>"
  using assms by (simp add: startProduction_def saveProductionState_def)

lemma loop_periodicSave_snapshot:
  assumes "countChanged g" "sdAvailable g" "t - lastSaveTime g > saveInterval g"
    and "productionActive g" "\<not> openFails (sd g)"
  shows "productionStateFile (sd (loop_periodicSave t g)) = Some
           \<lparr> file_currentCount = currentCount g, file_startCount = productionStartCount g,
             file_year = ucast (year (productionStartTime g)),
             file_month = ucast (month (productionStartTime g)),
             file_day = ucast (day (productionStartTime g)),
             file_hour = ucast (hour (productionStartTime g)),
             file_minute = ucast (minute (productionStartTime g)),
             file_second = ucast (second (productionStartTime g)) \<rparr> \<and>
         \<not> openFails (sd (loop_periodicSave t g))"
  using assms by (simp add: loop_periodicSave_def saveProductionState_def Let_def)

lemma sless_MAX_COUNT: "sint (c :: 32 word) < 9999 \<Longrightarrow> c <s MAX_COUNT"
  by (simp add: word_sless_alt MAX_COUNT_def)

lemma three_presses:
  assumes active: "productionActive g"
    and room: "currentCount g <=s 9996"
    and presses: "t1 - lastInterruptTime g > cachedDebounceDelay g"
      "t2 - t1 > cachedDebounceDelay g" "t3 - t2 > cachedDebounceDelay g"
  shows "handleInterrupt t3 (handleInterrupt t2 (handleInterrupt t1 g)) =
           g\<lparr> currentCount := currentCount g + 3, countChanged := True, lastInterruptTime := t3 \<rparr>"
proof -
  from room have c0: "sint (currentCount g) \<le> 9996"
    by (simp add: word_sle_eq)
  then have s1: "sint (currentCount g + 1) = sint (currentCount g) + 1"
    by (intro sint_Suc_word) simp
  with c0 have s2: "sint (currentCount g + 1 + 1) = sint (currentCount g) + 2"
    using sint_Suc_word [of "currentCount g + 1"] by simp
  let ?g1 = "g\<lparr> currentCount := currentCount g + 1, countChanged := True, lastInterruptTime := t1 \<rparr>"
  let ?g2 = "g\<lparr> currentCount := currentCount g + 1 + 1, countChanged := True, lastInterruptTime := t2 \<rparr>"
  have h1: "handleInterrupt t1 g = ?g1"
    using active c0 presses(1) by (intro handleInterrupt_counts sless_MAX_COUNT) simp_all
  have h2: "handleInterrupt t2 ?g1 = ?g2"
    using handleInterrupt_counts [of ?g1 t2] active c0 s1 presses(2)
    by (simp add: sless_MAX_COUNT)
  have h3: "handleInterrupt t3 ?g2 =
      g\<lparr> currentCount := currentCount g + 1 + 1 + 1, countChanged := True, lastInterruptTime := t3 \<rparr>"
    using handleInterrupt_counts [of ?g2 t3] active c0 s2 presses(3)
    by (simp add: sless_MAX_COUNT)
  show ?thesis
    by (simp only: h1 h2 h3) simp
qed

text \<open>
  Claim C1, as amended. Start a session with clock and card available and a start time
  the restore accepts, count three debounced presses without reaching the maximum, and
  let the periodic save of the main loop run once after the third press. If the power
  is cut then, without a stop, the next start-up finds the card, restores the session
  as active, with a session count of 3 and the start time of the session.
\<close>

theorem recovery_round_trip_after_save:
  assumes hw: "rtcAvailable g" "sdAvailable g" "\<not> openFails (sd g)"
    and clock: "startTimeInRange now"
    and room: "currentCount g <=s 9996"
    and presses: "t1 - lastInterruptTime g > cachedDebounceDelay g"
      "t2 - t1 > cachedDebounceDelay g" "t3 - t2 > cachedDebounceDelay g"
    and due: "ts - lastSaveTime g > saveInterval g"
  shows "productionActive
           (setup_sketch True rtcOk latchPressed rtcNow
             (sd (loop_periodicSave ts
               (handleInterrupt t3 (handleInterrupt t2 (handleInterrupt t1
                 (startProduction now g))))))) \<and>
         productionCount
           (setup_sketch True rtcOk latchPressed rtcNow
             (sd (loop_periodicSave ts
               (handleInterrupt t3 (handleInterrupt t2 (handleInterrupt t1
                 (startProduction now g))))))) = 3 \<and>
         productionStartTime
           (setup_sketch True rtcOk latchPressed rtcNow
             (sd (loop_periodicSave ts
               (handleInterrupt t3 (handleInterrupt t2 (handleInterrupt t1
                 (startProduction now g))))))) = now"
proof -
  let ?g1 = "startProduction now g"
  let ?g4 = "handleInterrupt t3 (handleInterrupt t2 (handleInterrupt t1 ?g1))"
  let ?sdc = "sd (loop_periodicSave ts ?g4)"
  let ?g2 = "setup_latch latchPressed rtcNow
               (setup_loadCounts ((Globals_init ?sdc)\<lparr> sdAvailable := True, rtcAvailable := rtcOk \<rparr>))"
  note g1 = startProduction_saves [OF hw, of now]
  have g4: "?g4 = ?g1\<lparr> currentCount := currentCount ?g1 + 3, countChanged := True,
                         lastInterruptTime := t3 \<rparr>"
    using room presses by (intro three_presses) (simp_all add: g1)
  have "productionStateFile ?sdc = Some
           \<lparr> file_currentCount = currentCount ?g4, file_startCount = productionStartCount ?g4,
             file_year = ucast (year (productionStartTime ?g4)),
             file_month = ucast (month (productionStartTime ?g4)),
             file_day = ucast (day (productionStartTime ?g4)),
             file_hour = ucast (hour (productionStartTime ?g4)),
             file_minute = ucast (minute (productionStartTime ?g4)),
             file_second = ucast (second (productionStartTime ?g4)) \<rparr> \<and>
         \<not> openFails ?sdc"
    using hw due by (intro loop_periodicSave_snapshot) (simp_all add: g4, simp_all add: g1)
  then have snap: "productionStateFile ?sdc = Some
           \<lparr> file_currentCount = currentCount g + 3, file_startCount = currentCount g,
             file_year = ucast (year now), file_month = ucast (month now),
             file_day = ucast (day now), file_hour = ucast (hour now),
             file_minute = ucast (minute now), file_second = ucast (second now) \<rparr>"
    and opens: "\<not> openFails ?sdc"
    by (simp_all add: g4, simp_all add: g1)
  have pre: "sdAvailable ?g2" "\<not> openFails (sd ?g2)"
    using opens by simp_all
  have "productionStateFile (sd ?g2) = Some
           \<lparr> file_currentCount = currentCount g + 3, file_startCount = currentCount g,
             file_year = ucast (year now), file_month = ucast (month now),
             file_day = ucast (day now), file_hour = ucast (hour now),
             file_minute = ucast (minute now), file_second = ucast (second now) \<rparr>"
    using snap by simp
  from restoreProductionState_of_saved [OF pre this clock]
  show ?thesis
    by (simp add: setup_sketch_before_restore Let_def)
qed

theorem recovery_round_trip_after_save_witness:
  "rtcAvailable example_running \<and> sdAvailable example_running \<and>
   \<not> openFails (sd example_running) \<and> startTimeInRange example_time \<and>
   currentCount example_running <=s 9996 \<and>
   1000 - lastInterruptTime example_running > cachedDebounceDelay example_running \<and>
   (2000 :: 32 word) - 1000 > cachedDebounceDelay example_running \<and>
   (3000 :: 32 word) - 2000 > cachedDebounceDelay example_running \<and>
   9000 - lastSaveTime example_running > saveInterval example_running \<and>
   productionActive (setup_sketch True True False example_time_later (sd example_three_saved)) \<and>
   productionCount (setup_sketch True True False example_time_later (sd example_three_saved)) = 3 \<and>
   productionStartTime (setup_sketch True True False example_time_later (sd example_three_saved)) =
     example_time"
proof -
  have hw: "rtcAvailable example_running" "sdAvailable example_running"
    "\<not> openFails (sd example_running)"
    by code_simp+
  have clock: "startTimeInRange example_time"
    by code_simp
  have room: "currentCount example_running <=s 9996"
    by code_simp
  have presses: "1000 - lastInterruptTime example_running > cachedDebounceDelay example_running"
    "(2000 :: 32 word) - 1000 > cachedDebounceDelay example_running"
    "(3000 :: 32 word) - 2000 > cachedDebounceDelay example_running"
    by code_simp+
  have due: "9000 - lastSaveTime example_running > saveInterval example_running"
    by code_simp
  from recovery_round_trip_after_save [OF hw clock room presses due, of True False example_time_later]
    hw clock room presses due
  show ?thesis
    by (simp only: example_three_saved_def example_three_counted_def) simp
qed

text \<open>
  Claim C1 as stated has no save between the third press and the power cut. The
  snapshot on the card is then the one written at the start of the session: the session
  is restored as active, but its count is 0, not 3.
\<close>

theorem recovery_round_trip_counterexample:
  "productionActive (setup_sketch True True False example_time_later (sd example_three_counted)) \<and>
   currentCount example_three_counted - productionStartCount example_three_counted = 3 \<and>
   productionCount (setup_sketch True True False example_time_later (sd example_three_counted)) \<noteq> 3"
  by code_simp

section \<open>Hour change in the sketch\<close>

lemma handleHourChange_active:
  "productionActive g \<Longrightarrow> handleHourChange now g = g"
  by (simp add: handleHourChange_def)

text \<open>
  Claim C9. The claim has an hour change during an active session update the cumulative
  total, as the comment in that branch of \<^verbatim>\<open>handleHourChange()\<close> does (``just update
  cumulative without resetting''). The branch assigns nothing: with a session active,
  5 items counted and a cumulative total of 10, \<^verbatim>\<open>handleHourChange()\<close> returns the
  globals as they were and the cumulative total is still 10. The other half of the claim
  is what the code does: once the session is stopped, the next hour change adds the 5
  items to the cumulative total, which becomes 15, and resets the counter to 0.
\<close>

theorem hour_change_during_production_leaves_cumulative:
  "productionActive example_five_counted \<and>
   currentCount example_five_counted = 5 \<and>
   cumulativeCount example_five_counted = 10 \<and>
   handleHourChange example_next_hour example_five_counted = example_five_counted \<and>
   cumulativeCount (handleHourChange example_next_hour example_five_counted) = 10 \<and>
   \<not> productionActive example_five_stopped \<and>
   currentCount (handleHourChange example_next_hour example_five_stopped) = 0 \<and>
   hourlyCount (handleHourChange example_next_hour example_five_stopped) = 5 \<and>
   cumulativeCount (handleHourChange example_next_hour example_five_stopped) = 15"
proof -
  have a: "productionActive example_five_counted"
    by code_simp
  have b: "currentCount example_five_counted = 5" "cumulativeCount example_five_counted = 10"
    by code_simp+
  have c: "\<not> productionActive example_five_stopped"
    "currentCount (handleHourChange example_next_hour example_five_stopped) = 0"
    "hourlyCount (handleHourChange example_next_hour example_five_stopped) = 5"
    "cumulativeCount (handleHourChange example_next_hour example_five_stopped) = 15"
    by code_simp+
  from a b c handleHourChange_active [OF a, of example_next_hour] show ?thesis by simp
qed

end
